theory Spec2Isabelle
  imports Main "HOL-Library.Word" "HOL-Library.Multiset"
begin

section \<open>JavaScript strings\<close>

text \<open>
  A JavaScript string is a sequence of UTF-16 code units. The regular expression of
  \<open>uploadVideo\<close> has no \<open>u\<close> flag, and \<open>split\<close>, \<open>trim\<close> and \<open>length\<close> work on code
  units as well, so a string is a list of 16-bit words. \<open>js\<close> writes a literal.
\<close>

type_synonym jschar = "16 word"
type_synonym jsstring = "jschar list"

definition js :: "string \<Rightarrow> jsstring" where
  "js s = map of_char s"

text \<open>\<open>\d\<close> is \<open>[0-9]\<close> and \<open>\w\<close> is \<open>[A-Za-z0-9_]\<close> (no \<open>i\<close> or \<open>u\<close> flag).\<close>

definition isDigit :: "jschar \<Rightarrow> bool" where
  "isDigit c \<longleftrightarrow> 0x30 \<le> c \<and> c \<le> 0x39"

definition isWordChar :: "jschar \<Rightarrow> bool" where
  "isWordChar c \<longleftrightarrow>
     (0x41 \<le> c \<and> c \<le> 0x5A) \<or> (0x61 \<le> c \<and> c \<le> 0x7A) \<or> isDigit c \<or> c = 0x5F"

text \<open>The negated class \<open>[^\w\d.-]\<close> of \<open>uploadVideo\<close>: what the regular expression matches.\<close>

definition matchesSpecial :: "jschar \<Rightarrow> bool" where
  "matchesSpecial c \<longleftrightarrow> \<not> (isWordChar c \<or> isDigit c \<or> c = 0x2E \<or> c = 0x2D)"

text \<open>\<open>file.name.replace(/[^\w\d.-]/g, '_')\<close>: every match, one code unit, becomes \<open>_\<close>.\<close>

definition cleanFileName :: "jsstring \<Rightarrow> jsstring" where
  "cleanFileName fileName = map (\<lambda>c. if matchesSpecial c then 0x5F else c) fileName"

text \<open>\<open>s.split(sep)\<close> for a separator of one code unit; \<open>''.split(',')\<close> is \<open>['']\<close>.\<close>

fun split :: "jschar \<Rightarrow> jsstring \<Rightarrow> jsstring list" where
  "split sep [] = [[]]"
| "split sep (c # cs) =
     (if c = sep then [] # split sep cs
      else (case split sep cs of
              [] \<Rightarrow> [[c]]
            | seg # segs \<Rightarrow> (c # seg) # segs))"

text \<open>
  \<open>trim\<close> strips the ECMAScript WhiteSpace and LineTerminator code units from both ends.
\<close>

definition isWhiteSpace :: "jschar \<Rightarrow> bool" where
  "isWhiteSpace c \<longleftrightarrow>
     (0x09 \<le> c \<and> c \<le> 0x0D) \<or> c = 0x20 \<or> c = 0xA0 \<or> c = 0x1680 \<or>
     (0x2000 \<le> c \<and> c \<le> 0x200A) \<or> c = 0x2028 \<or> c = 0x2029 \<or> c = 0x202F \<or>
     c = 0x205F \<or> c = 0x3000 \<or> c = 0xFEFF"

definition trim :: "jsstring \<Rightarrow> jsstring" where
  "trim s = rev (dropWhile isWhiteSpace (rev (dropWhile isWhiteSpace s)))"

text \<open>\<open>!import.meta.env.X\<close>: an unset variable and the empty string are both falsy.\<close>

definition falsy :: "jsstring option \<Rightarrow> bool" where
  "falsy v = (case v of None \<Rightarrow> True | Some s \<Rightarrow> s = [])"

section \<open>Data model\<close>

type_synonym Timestamp = nat

record SocialLinks =
  twitter :: "jsstring option"
  instagram :: "jsstring option"

text \<open>
  \<open>WebsiteInput\<close> is \<open>Omit<WebsiteData, 'id' | 'uploadedAt'>\<close>, the argument type of
  \<open>saveWebsite\<close>; \<open>WebsiteData\<close> adds the two omitted fields. An optional field is an
  option: \<open>None\<close> is a field that is absent. The field \<open>id\<close> is written \<open>id_opt\<close>.
\<close>

record WebsiteInput =
  name :: jsstring
  url :: jsstring
  categories :: "jsstring list"
  socialLinks :: SocialLinks
  builtWith :: jsstring
  otherTechnologies :: "jsstring option"
  videoUrl :: "jsstring option"

record WebsiteData = WebsiteInput +
  id_opt :: "jsstring option"
  uploadedAt :: Timestamp

text \<open>The browser's \<open>File\<close>: its fields \<open>name\<close>, \<open>size\<close> and \<open>type\<close>.\<close>

record File =
  file_name :: jsstring
  file_size :: nat
  file_type :: jsstring

datatype Error = Error jsstring

text \<open>The folder statistics \<open>{count, size}\<close> and the report of \<open>getStorageUsage\<close>.\<close>

record FolderStat =
  count_s :: nat
  size_s :: nat

record StorageUsage =
  fileCount :: nat
  totalSize :: nat
  folders :: "jsstring \<rightharpoonup> FolderStat"

section \<open>The document store and the blob store\<close>

text \<open>
  The calls that the module imports from the Firebase SDK. Every call a function makes is
  appended to \<open>calls\<close>, so that "never invoked" and "called once" are statements about
  the log.
\<close>

datatype Call =
    UploadBytes jsstring File
  | GetDownloadURL jsstring
  | ListAll jsstring
  | AddDoc WebsiteData
  | GetDocs
  | DeleteDoc "jsstring list"

text \<open>
  \<open>docs\<close> is the collection \<open>websites\<close>: document identifier and data, in insertion
  order. \<open>blobs\<close> is the storage bucket, from full path to object.
\<close>

record World =
  docs :: "(jsstring \<times> WebsiteData) list"
  blobs :: "jsstring \<rightharpoonup> File"
  calls :: "Call list"

text \<open>
  What the surroundings decide during one operation: the two environment variables, the
  token of \<open>crypto.randomUUID()\<close>, the clock of \<open>Timestamp.now()\<close>, and for each service
  call whether it is rejected (and with which error), the identifier a successful insert
  assigns, and what a listing of a folder returns.
\<close>

record Env =
  VITE_FIREBASE_API_KEY :: "jsstring option"
  VITE_FIREBASE_PROJECT_ID :: "jsstring option"
  randomUUID :: jsstring
  now :: Timestamp
  uploadBytes_error :: "Error option"
  addDoc_result :: "Error + jsstring"
  getDocs_error :: "Error option"
  deleteDoc_error :: "Error option"
  listAll_result :: "jsstring \<Rightarrow> Error + jsstring list"

text \<open>
  Modelled from the spec: the blob store's \<open>put(key, bytes) -> ()\<close>, the SDK's
  \<open>uploadBytes\<close>, which is not part of the repository. A rejected upload writes nothing.
\<close>

definition uploadBytes :: "Env \<Rightarrow> jsstring \<Rightarrow> File \<Rightarrow> World \<Rightarrow> (Error + unit) \<times> World" where
  "uploadBytes env path file w =
     (let w1 = w\<lparr>calls := calls w @ [UploadBytes path file]\<rparr> in
      case uploadBytes_error env of
        Some e \<Rightarrow> (Inl e, w1)
      | None \<Rightarrow> (Inr (), w1\<lparr>blobs := (blobs w1)(path \<mapsto> file)\<rparr>))"

text \<open>
  Modelled from the spec: the blob store's \<open>list(prefix) -> sequence of keys\<close>, the SDK's
  \<open>listAll\<close>, which is not part of the repository. It reads only.
\<close>

definition listAll :: "Env \<Rightarrow> jsstring \<Rightarrow> World \<Rightarrow> (Error + jsstring list) \<times> World" where
  "listAll env folder w = (listAll_result env folder, w\<lparr>calls := calls w @ [ListAll folder]\<rparr>)"

text \<open>
  Modelled from the spec: the document store's \<open>insert(collection, document) -> id\<close>, the
  SDK's \<open>addDoc\<close>, which is not part of the repository. A rejected insert writes nothing.
\<close>

definition addDoc :: "Env \<Rightarrow> WebsiteData \<Rightarrow> World \<Rightarrow> (Error + jsstring) \<times> World" where
  "addDoc env d w =
     (let w1 = w\<lparr>calls := calls w @ [AddDoc d]\<rparr> in
      case addDoc_result env of
        Inl e \<Rightarrow> (Inl e, w1)
      | Inr newId \<Rightarrow> (Inr newId, w1\<lparr>docs := docs w1 @ [(newId, d)]\<rparr>))"

datatype Direction = asc | desc

text \<open>
  Modelled from the spec: the ordering of the document store's
  \<open>query(collection, orderBy, direction) -> sequence of documents\<close>, which is not part of
  the repository: all documents, ordered by the field in the direction asked for, "ties
  broken by store-assigned insertion order". Both directions are stable sorts.
\<close>

definition orderBy :: "(WebsiteData \<Rightarrow> 'k::linorder) \<Rightarrow> Direction \<Rightarrow>
    (jsstring \<times> WebsiteData) list \<Rightarrow> (jsstring \<times> WebsiteData) list" where
  "orderBy field dir ds =
     (case dir of
        asc \<Rightarrow> sort_key (\<lambda>d. field (snd d)) ds
      | desc \<Rightarrow> rev (sort_key (\<lambda>d. field (snd d)) (rev ds)))"

text \<open>
  Modelled from the spec: the document store's \<open>query\<close> as a call, the SDK's \<open>getDocs\<close>,
  which is not part of the repository. It reads only.
\<close>

definition getDocs :: "Env \<Rightarrow> ((jsstring \<times> WebsiteData) list \<Rightarrow> (jsstring \<times> WebsiteData) list) \<Rightarrow>
    World \<Rightarrow> (Error + (jsstring \<times> WebsiteData) list) \<times> World" where
  "getDocs env q w =
     (let w1 = w\<lparr>calls := calls w @ [GetDocs]\<rparr> in
      case getDocs_error env of
        Some e \<Rightarrow> (Inl e, w1)
      | None \<Rightarrow> (Inr (q (docs w)), w1))"

text \<open>\<open>path.indexOf('//') >= 0\<close>: two adjacent slashes somewhere in the string.\<close>

fun containsDoubleSlash :: "jsstring \<Rightarrow> bool" where
  "containsDoubleSlash (a # b # cs) = ((a = 0x2F \<and> b = 0x2F) \<or> containsDoubleSlash (b # cs))"
| "containsDoubleSlash cs = False"

text \<open>
  Modelled from the spec: the identifier that the document store's
  \<open>deleteById(collection, id)\<close> takes is resolved by the SDK's \<open>doc(db, 'websites', id)\<close>,
  which is not part of the repository and on which the specification is silent. The SDK
  refuses an argument that contains \<open>//\<close>, splits the argument at \<open>/\<close>, drops the empty
  segments, appends the rest to the path \<open>websites\<close>, and refuses a path with an odd
  number of segments, which names no document. \<open>None\<close> is the exception it throws, whose
  value the \<open>catch\<close> of \<open>deleteWebsite\<close> discards; \<open>Some\<close> holds the path of the
  document reference.
\<close>

definition doc :: "jsstring \<Rightarrow> jsstring list option" where
  "doc websiteId =
     (if containsDoubleSlash websiteId then None
      else (let segments = [js ''websites'']
                  @ filter (\<lambda>segment. length segment > 0) (split 0x2F websiteId)
            in if length segments mod 2 = 0 then Some segments else None))"

text \<open>
  Modelled from the spec: the document store's \<open>deleteById(collection, id) -> ()\<close>, the
  SDK's \<open>deleteDoc\<close>, which is not part of the repository: it "removes the entry with that
  id; is a no-op (not an error) if the id does not exist", and is rejected "only on
  transport/permission error". A reference with a longer path names a document of a
  subcollection, which is not an entry of the catalog.
\<close>

definition deleteDoc :: "Env \<Rightarrow> jsstring list \<Rightarrow> World \<Rightarrow> (Error + unit) \<times> World" where
  "deleteDoc env websiteRef w =
     (let w1 = w\<lparr>calls := calls w @ [DeleteDoc websiteRef]\<rparr> in
      case deleteDoc_error env of
        Some e \<Rightarrow> (Inl e, w1)
      | None \<Rightarrow>
          (Inr (), w1\<lparr>docs := filter (\<lambda>d. [js ''websites'', fst d] \<noteq> websiteRef) (docs w1)\<rparr>))"

section \<open>The operations of the module\<close>

text \<open>\<open>uploadVideo\<close>: any error of the \<open>try\<close> block is replaced by a new \<open>Error\<close>.\<close>

definition uploadVideo :: "Env \<Rightarrow> File \<Rightarrow> World \<Rightarrow> (Error + jsstring) \<times> World" where
  "uploadVideo env file w =
     (let videoId = randomUUID env;
          cleanName = cleanFileName (file_name file);
          storagePath = js ''videos/'' @ videoId @ js ''_'' @ cleanName
      in case uploadBytes env storagePath file w of
           (Inl error, w1) \<Rightarrow> (Inl (Error (js ''Failed to upload video'')), w1)
         | (Inr u, w1) \<Rightarrow>
             (Inr (js ''https://cdn.gridrr.com/videos/'' @ videoId @ js ''_'' @ cleanName), w1))"

text \<open>
  \<open>saveWebsite\<close>: the configuration check throws inside the \<open>try\<close> block and the \<open>catch\<close>
  rethrows what it caught. \<open>websiteWithMetadata\<close> is the argument with \<open>uploadedAt\<close>
  added; it has no field \<open>id\<close>.
\<close>

definition websiteWithMetadata :: "WebsiteInput \<Rightarrow> Timestamp \<Rightarrow> WebsiteData" where
  "websiteWithMetadata websiteData t =
     \<lparr>name = name websiteData, url = url websiteData, categories = categories websiteData,
      socialLinks = socialLinks websiteData, builtWith = builtWith websiteData,
      otherTechnologies = otherTechnologies websiteData, videoUrl = videoUrl websiteData,
      id_opt = None, uploadedAt = t\<rparr>"

definition saveWebsite :: "Env \<Rightarrow> WebsiteInput \<Rightarrow> World \<Rightarrow> (Error + jsstring) \<times> World" where
  "saveWebsite env websiteData w =
     (if falsy (VITE_FIREBASE_API_KEY env) \<or> falsy (VITE_FIREBASE_PROJECT_ID env)
      then (Inl (Error (js ''Firebase configuration is missing. Please check your .env file.'')), w)
      else case addDoc env (websiteWithMetadata websiteData (now env)) w of
             (Inl error, w1) \<Rightarrow> (Inl error, w1)
           | (Inr docId, w1) \<Rightarrow> (Inr docId, w1))"

text \<open>
  \<open>getWebsites\<close>: \<open>{id: doc.id, ...doc.data()}\<close> puts the document identifier first and
  spreads the data over it, so a field \<open>id\<close> of the data wins.
\<close>

definition withDocId :: "jsstring \<times> WebsiteData \<Rightarrow> WebsiteData" where
  "withDocId d =
     (snd d)\<lparr>id_opt := (case id_opt (snd d) of None \<Rightarrow> Some (fst d) | Some v \<Rightarrow> Some v)\<rparr>"

definition getWebsites :: "Env \<Rightarrow> World \<Rightarrow> (Error + WebsiteData list) \<times> World" where
  "getWebsites env w =
     (case getDocs env (orderBy uploadedAt desc) w of
        (Inl error, w1) \<Rightarrow> (Inl (Error (js ''Failed to fetch websites'')), w1)
      | (Inr querySnapshot, w1) \<Rightarrow> (Inr (map withDocId querySnapshot), w1))"

text \<open>
  \<open>deleteWebsite\<close>: \<open>doc(db, 'websites', websiteId)\<close> runs inside the \<open>try\<close>, before
  \<open>deleteDoc\<close>; what either of them throws is replaced by a new \<open>Error\<close>.
\<close>

definition deleteWebsite :: "Env \<Rightarrow> jsstring \<Rightarrow> World \<Rightarrow> (Error + unit) \<times> World" where
  "deleteWebsite env websiteId w =
     (case doc websiteId of
        None \<Rightarrow> (Inl (Error (js ''Failed to delete website'')), w)
      | Some websiteRef \<Rightarrow>
          (case deleteDoc env websiteRef w of
             (Inl error, w1) \<Rightarrow> (Inl (Error (js ''Failed to delete website'')), w1)
           | (Inr u, w1) \<Rightarrow> (Inr (), w1)))"

text \<open>
  \<open>getStorageUsage\<close>: the \<open>for\<close> loop over \<open>folders\<close>, with the three accumulators
  \<open>totalFileCount\<close>, \<open>totalSize\<close> and \<open>folderStats\<close>. The inner \<open>catch\<close> records a zero
  entry and goes on; it does not touch the totals.
\<close>

fun getStorageUsage_loop :: "Env \<Rightarrow> jsstring list \<Rightarrow> nat \<times> nat \<times> (jsstring \<rightharpoonup> FolderStat) \<Rightarrow>
    World \<Rightarrow> (nat \<times> nat \<times> (jsstring \<rightharpoonup> FolderStat)) \<times> World" where
  "getStorageUsage_loop env [] acc w = (acc, w)"
| "getStorageUsage_loop env (folder # rest) (totalFileCount, totalSz, folderStats) w =
     (case listAll env folder w of
        (Inr items, w1) \<Rightarrow>
          (let folderSize = fold (\<lambda>item sz. sz + 1024 * 1024) items 0 in
           getStorageUsage_loop env rest
             (totalFileCount + length items, totalSz + folderSize,
              folderStats(folder \<mapsto> \<lparr>count_s = length items, size_s = folderSize\<rparr>)) w1)
      | (Inl error, w1) \<Rightarrow>
          getStorageUsage_loop env rest
            (totalFileCount, totalSz, folderStats(folder \<mapsto> \<lparr>count_s = 0, size_s = 0\<rparr>)) w1)"

definition getStorageUsage :: "Env \<Rightarrow> World \<Rightarrow> (Error + StorageUsage) \<times> World" where
  "getStorageUsage env w =
     (case getStorageUsage_loop env [js ''videos/'', js ''websites/''] (0, 0, Map.empty) w of
        ((totalFileCount, totalSz, folderStats), w1) \<Rightarrow>
          (Inr \<lparr>fileCount = totalFileCount, totalSize = totalSz, folders = folderStats\<rparr>, w1))"

section \<open>The submission handler\<close>

text \<open>
  The form state of the component (its fields are \<open>name\<close>, \<open>url\<close>, \<open>categories\<close>, ... in
  the source; here with the prefix \<open>form_\<close>, since \<open>WebsiteInput\<close> has fields of the same
  names) and the part of the component state that \<open>handleSubmit\<close> reads or sets.
\<close>

record FormData =
  form_name :: jsstring
  form_url :: jsstring
  form_categories :: jsstring
  form_twitter :: jsstring
  form_instagram :: jsstring
  form_builtWith :: jsstring
  form_otherTechnologies :: jsstring

record UiState =
  websites :: "WebsiteData list"
  isSubmitting :: bool
  submitMessage :: "jsstring option"
  formData :: FormData
  videoFile :: "File option"
  isUploadingVideo :: bool

text \<open>
  The object literal \<open>websiteData\<close> of \<open>handleSubmit\<close>. \<open>...(s && {k: v})\<close> adds the field
  only for a truthy \<open>s\<close>, a string that is not empty; \<open>videoUrl\<close> is \<open>undefined\<close> without
  a video.
\<close>

definition websiteData :: "FormData \<Rightarrow> jsstring option \<Rightarrow> WebsiteInput" where
  "websiteData fd vUrl =
     \<lparr>name = form_name fd,
      url = form_url fd,
      categories = filter (\<lambda>cat. length cat > 0) (map trim (split 0x2C (form_categories fd))),
      socialLinks =
        \<lparr>twitter = (if form_twitter fd \<noteq> []
                    then Some (js ''https://twitter.com/'' @ form_twitter fd) else None),
         instagram = (if form_instagram fd \<noteq> []
                      then Some (js ''https://instagram.com/'' @ form_instagram fd) else None)\<rparr>,
      builtWith = form_builtWith fd,
      otherTechnologies = (if form_otherTechnologies fd \<noteq> []
                           then Some (form_otherTechnologies fd) else None),
      videoUrl = (case vUrl of None \<Rightarrow> None | Some u \<Rightarrow> if u \<noteq> [] then Some u else None)\<rparr>"

definition emptyForm :: FormData where
  "emptyForm = \<lparr>form_name = [], form_url = [], form_categories = [], form_twitter = [],
     form_instagram = [], form_builtWith = [], form_otherTechnologies = []\<rparr>"

text \<open>\<open>loadWebsites\<close> logs a failure of \<open>getWebsites\<close> and keeps the list it had.\<close>

definition loadWebsites :: "Env \<Rightarrow> UiState \<Rightarrow> World \<Rightarrow> UiState \<times> World" where
  "loadWebsites env ui w =
     (case getWebsites env w of
        (Inr fetchedWebsites, w1) \<Rightarrow> (ui\<lparr>websites := fetchedWebsites\<rparr>, w1)
      | (Inl error, w1) \<Rightarrow> (ui, w1))"

text \<open>
  The part of \<open>handleSubmit\<close> after the optional upload: assemble, save, reset the form and
  reload the list. The outer \<open>catch\<close> turns a failure of \<open>saveWebsite\<close> into a message.
\<close>

definition handleSubmit_save :: "Env \<Rightarrow> jsstring option \<Rightarrow> UiState \<Rightarrow> World \<Rightarrow> UiState \<times> World" where
  "handleSubmit_save env vUrl ui w =
     (case saveWebsite env (websiteData (formData ui) vUrl) w of
        (Inl error, w1) \<Rightarrow>
          (ui\<lparr>submitMessage := Some (js ''Error saving website. Please try again.'')\<rparr>, w1)
      | (Inr docId, w1) \<Rightarrow>
          loadWebsites env
            (ui\<lparr>submitMessage := Some (js ''Website saved successfully!''),
                formData := emptyForm, videoFile := None\<rparr>) w1)"

text \<open>
  \<open>handleSubmit\<close>: the configuration check returns first; a failed upload returns from the
  inner \<open>catch\<close>; the two \<open>finally\<close> blocks reset \<open>isUploadingVideo\<close> and \<open>isSubmitting\<close>
  on every path.
\<close>

definition handleSubmit :: "Env \<Rightarrow> UiState \<Rightarrow> World \<Rightarrow> UiState \<times> World" where
  "handleSubmit env ui0 w =
     (let ui = ui0\<lparr>isSubmitting := True, submitMessage := None\<rparr>;
          (ui', w') =
            (if falsy (VITE_FIREBASE_API_KEY env) \<or> falsy (VITE_FIREBASE_PROJECT_ID env)
             then (ui\<lparr>submitMessage := Some (js ''Firebase configuration is missing. Please check your .env file with your Firebase project settings.'')\<rparr>, w)
             else case videoFile ui of
                    Some file \<Rightarrow>
                      (let uiU = ui\<lparr>isUploadingVideo := True\<rparr> in
                       case uploadVideo env file w of
                         (Inl error, w1) \<Rightarrow>
                           (uiU\<lparr>submitMessage := Some (js ''Failed to upload video. Please try again.''),
                                isUploadingVideo := False\<rparr>, w1)
                       | (Inr u, w1) \<Rightarrow>
                           handleSubmit_save env (Some u) (uiU\<lparr>isUploadingVideo := False\<rparr>) w1)
                  | None \<Rightarrow> handleSubmit_save env None ui w)
      in (ui'\<lparr>isSubmitting := False\<rparr>, w'))"

section \<open>Notions of the specification and sample inputs\<close>

text \<open>The class \<open>[A-Za-z0-9._-]\<close> as the specification writes it.\<close>

definition inSafeClass :: "jschar \<Rightarrow> bool" where
  "inSafeClass c \<longleftrightarrow>
     (0x41 \<le> c \<and> c \<le> 0x5A) \<or> (0x61 \<le> c \<and> c \<le> 0x7A) \<or> (0x30 \<le> c \<and> c \<le> 0x39) \<or>
     c = 0x2E \<or> c = 0x5F \<or> c = 0x2D"

text \<open>The extension of a file name: what follows its last dot, if it has a dot.\<close>

definition extension :: "jsstring \<Rightarrow> jsstring option" where
  "extension s =
     (if 0x2E \<in> set s then Some (rev (takeWhile (\<lambda>c. c \<noteq> 0x2E) (rev s))) else None)"

text \<open>The calls an operation has added to the log, and whether a call is an insert.\<close>

definition newCalls :: "World \<Rightarrow> World \<Rightarrow> Call list" where
  "newCalls w w' = drop (length (calls w)) (calls w')"

fun isAddDoc :: "Call \<Rightarrow> bool" where
  "isAddDoc (AddDoc d) = True"
| "isAddDoc c = False"

fun isGetDownloadURL :: "Call \<Rightarrow> bool" where
  "isGetDownloadURL (GetDownloadURL p) = True"
| "isGetDownloadURL c = False"

text \<open>What one folder adds to the report: its statistics, from the result of its listing.\<close>

definition contribution :: "Error + jsstring list \<Rightarrow> FolderStat" where
  "contribution r =
     (case r of
        Inr items \<Rightarrow> \<lparr>count_s = length items, size_s = length items * 1048576\<rparr>
      | Inl e \<Rightarrow> \<lparr>count_s = 0, size_s = 0\<rparr>)"

text \<open>A configured environment in which every service call succeeds, and an empty world.\<close>

definition env_ok :: Env where
  "env_ok =
     \<lparr>VITE_FIREBASE_API_KEY = Some (js ''k''), VITE_FIREBASE_PROJECT_ID = Some (js ''p''),
      randomUUID = js ''u1'', now = 7,
      uploadBytes_error = None, addDoc_result = Inr (js ''d9''),
      getDocs_error = None, deleteDoc_error = None,
      listAll_result = (\<lambda>folder. if folder = js ''videos/'' then Inr [js ''a'', js ''b'', js ''c'']
                                  else if folder = js ''websites/'' then Inr []
                                  else Inl (Error (js ''not found'')))\<rparr>"

definition world0 :: World where
  "world0 = \<lparr>docs = [], blobs = Map.empty, calls = []\<rparr>"

definition file0 :: File where
  "file0 = \<lparr>file_name = js ''a b.mp4'', file_size = 10, file_type = js ''video/mp4''\<rparr>"

definition form0 :: FormData where
  "form0 = \<lparr>form_name = js ''n'', form_url = js ''u'', form_categories = js ''a, ,b ,'',
     form_twitter = js ''al'', form_instagram = [], form_builtWith = js ''r'',
     form_otherTechnologies = []\<rparr>"

definition ui0 :: UiState where
  "ui0 = \<lparr>websites = [], isSubmitting = False, submitMessage = None, formData = form0,
     videoFile = None, isUploadingVideo = False\<rparr>"

text \<open>
  The blob key \<open>"videos/" + token + "_" + sanitizedName\<close> and the public URL
  \<open>https://<cdn-host>/videos/<token>_<sanitizedFileName>\<close> as the specification writes
  them.
\<close>

definition storageKey :: "jsstring \<Rightarrow> jsstring \<Rightarrow> jsstring" where
  "storageKey token sanitizedName = js ''videos/'' @ token @ js ''_'' @ sanitizedName"

definition publicUrl :: "jsstring \<Rightarrow> jsstring \<Rightarrow> jsstring \<Rightarrow> jsstring" where
  "publicUrl cdnHost token sanitizedName =
     js ''https://'' @ cdnHost @ js ''/videos/'' @ token @ js ''_'' @ sanitizedName"

text \<open>Environments in which one thing goes wrong, and a submission with a video.\<close>

definition env_upload_fails :: Env where
  "env_upload_fails = env_ok\<lparr>uploadBytes_error := Some (Error (js ''quota''))\<rparr>"

definition env_read_denied :: Env where
  "env_read_denied = env_ok\<lparr>getDocs_error := Some (Error (js ''denied''))\<rparr>"

definition env_unconfigured :: Env where
  "env_unconfigured = env_ok\<lparr>VITE_FIREBASE_API_KEY := None\<rparr>"

definition ui_video :: UiState where
  "ui_video = ui0\<lparr>videoFile := Some file0\<rparr>"

definition env_write_rejected :: Env where
  "env_write_rejected = env_ok\<lparr>addDoc_result := Inl (Error (js ''rejected''))\<rparr>"

definition env_delete_denied :: Env where
  "env_delete_denied = env_ok\<lparr>deleteDoc_error := Some (Error (js ''denied''))\<rparr>"

definition env_list_fails :: Env where
  "env_list_fails =
     env_ok\<lparr>listAll_result := (\<lambda>folder. if folder = js ''videos/'' then Inr [js ''a'', js ''b'']
                                           else Inl (Error (js ''unavailable'')))\<rparr>"

text \<open>
  A catalog of three entries, inserted with the timestamps 1, 2 and 3, and one whose
  second document has a field \<open>id\<close> in its data.
\<close>

definition sampleDoc :: "Timestamp \<Rightarrow> WebsiteData" where
  "sampleDoc t = websiteWithMetadata (websiteData form0 None) t"

definition world3 :: World where
  "world3 = world0\<lparr>docs := [(js ''i1'', sampleDoc 1), (js ''i2'', sampleDoc 2), (js ''i3'', sampleDoc 3)]\<rparr>"

definition world_with_id :: World where
  "world_with_id =
     world0\<lparr>docs := [(js ''i1'', sampleDoc 1), (js ''i2'', (sampleDoc 2)\<lparr>id_opt := Some (js ''x'')\<rparr>)]\<rparr>"

section \<open>Facts about strings\<close>

lemma matchesSpecial_iff: "matchesSpecial c \<longleftrightarrow> \<not> inSafeClass c"
  by (auto simp: matchesSpecial_def inSafeClass_def isWordChar_def isDigit_def)

lemma inSafeClass_underscore: "inSafeClass 0x5F"
  by (simp add: inSafeClass_def)

lemma dot_in_clean: "0x2E \<in> set (cleanFileName s) \<longleftrightarrow> 0x2E \<in> set s"
  by (induction s) (auto simp: cleanFileName_def matchesSpecial_def)

lemma takeWhile_clean:
  "takeWhile (\<lambda>c. c \<noteq> 0x2E) (cleanFileName s) = cleanFileName (takeWhile (\<lambda>c. c \<noteq> 0x2E) s)"
  by (induction s) (auto simp: cleanFileName_def matchesSpecial_def)

lemma rev_clean: "rev (cleanFileName s) = cleanFileName (rev s)"
  by (simp add: cleanFileName_def rev_map)

lemma extension_clean: "extension (cleanFileName s) = map_option cleanFileName (extension s)"
  by (simp add: extension_def dot_in_clean rev_clean takeWhile_clean)

lemma clean_safe_id: "\<forall>c\<in>set s. inSafeClass c \<Longrightarrow> cleanFileName s = s"
  by (induction s) (auto simp: cleanFileName_def matchesSpecial_iff)

section \<open>Sanitization of file names\<close>

text \<open>
  Claim C5, as stated, fails: the extension is not preserved for every file name. The
  extension of \<open>"clip.mp 4"\<close> is \<open>"mp 4"\<close>, and the sanitized name \<open>"clip.mp_4"\<close> has the
  extension \<open>"mp_4"\<close>.
\<close>

theorem cleanFileName_extension_counterexample:
  "extension (js ''clip.mp 4'') = Some (js ''mp 4'')
   \<and> cleanFileName (js ''clip.mp 4'') = js ''clip.mp_4''
   \<and> extension (cleanFileName (js ''clip.mp 4'')) = Some (js ''mp_4'')
   \<and> extension (cleanFileName (js ''clip.mp 4'')) \<noteq> extension (js ''clip.mp 4'')"
  by (simp add: extension_def cleanFileName_def js_def matchesSpecial_def isWordChar_def isDigit_def)

text \<open>
  Claim C5, amended. For every file name, \<open>cleanFileName\<close> replaces exactly the code units
  outside \<open>[A-Za-z0-9._-]\<close> with \<open>_\<close>: the result has the length of the name, agrees with
  the name at every position that holds a code unit of the class and holds \<open>_\<close> at every
  other position, so it contains no code unit outside the class. The last dot stays where
  it is, and the extension is sanitized like the rest of the name: the extension of the
  result is the sanitized extension of the name, so an extension made of code units of the
  class is unchanged. \<open>"My Video (1).mp4"\<close> maps to \<open>"My_Video__1_.mp4"\<close>.
\<close>

theorem cleanFileName_sanitizes:
  "length (cleanFileName s) = length s
   \<and> (\<forall>i < length s. cleanFileName s ! i = (if inSafeClass (s ! i) then s ! i else 0x5F))
   \<and> (\<forall>c \<in> set (cleanFileName s). inSafeClass c)
   \<and> extension (cleanFileName s) = map_option cleanFileName (extension s)
   \<and> (\<forall>e. extension s = Some e \<and> (\<forall>c \<in> set e. inSafeClass c)
          \<longrightarrow> extension (cleanFileName s) = Some e)
   \<and> cleanFileName (js ''My Video (1).mp4'') = js ''My_Video__1_.mp4''"
proof (intro conjI)
  show "length (cleanFileName s) = length s"
    by (simp add: cleanFileName_def)
  show "\<forall>i < length s. cleanFileName s ! i = (if inSafeClass (s ! i) then s ! i else 0x5F)"
    by (simp add: cleanFileName_def matchesSpecial_iff)
  show "\<forall>c \<in> set (cleanFileName s). inSafeClass c"
    by (auto simp: cleanFileName_def matchesSpecial_iff inSafeClass_underscore)
  show "extension (cleanFileName s) = map_option cleanFileName (extension s)"
    by (rule extension_clean)
  show "\<forall>e. extension s = Some e \<and> (\<forall>c \<in> set e. inSafeClass c)
          \<longrightarrow> extension (cleanFileName s) = Some e"
    by (simp add: extension_clean clean_safe_id)
  show "cleanFileName (js ''My Video (1).mp4'') = js ''My_Video__1_.mp4''"
    by (simp add: cleanFileName_def js_def matchesSpecial_def isWordChar_def isDigit_def)
qed

theorem cleanFileName_sanitizes_witness:
  "length (cleanFileName (js ''a b.mp4'')) = 7
   \<and> cleanFileName (js ''a b.mp4'') ! 1 = 0x5F
   \<and> cleanFileName (js ''a b.mp4'') ! 2 = 0x62
   \<and> inSafeClass (cleanFileName (js ''a b.mp4'') ! 1)
   \<and> extension (cleanFileName (js ''a b.mp4'')) = Some (js ''mp4'')"
proof -
  let ?s = "js ''a b.mp4''"
  note inst = cleanFileName_sanitizes [of ?s]
  have len: "length ?s = 7" by (simp add: js_def)
  have ext: "extension ?s = Some (js ''mp4'')" by (simp add: extension_def js_def)
  have safe: "\<forall>c \<in> set (js ''mp4''). inSafeClass c" by (simp add: js_def inSafeClass_def)
  have n1: "?s ! 1 = 0x20" and n2: "?s ! 2 = 0x62" by (simp_all add: js_def)
  from inst len have c1: "length (cleanFileName ?s) = 7" by simp
  from inst len have at:
    "\<forall>i < 7. cleanFileName ?s ! i = (if inSafeClass (?s ! i) then ?s ! i else 0x5F)"
    by simp
  from at n1 have c2: "cleanFileName ?s ! 1 = 0x5F" by (simp add: inSafeClass_def)
  from at n2 have c3: "cleanFileName ?s ! 2 = 0x62" by (simp add: inSafeClass_def)
  from c2 have c4: "inSafeClass (cleanFileName ?s ! 1)" by (simp add: inSafeClass_def)
  from inst ext safe have c5: "extension (cleanFileName ?s) = Some (js ''mp4'')" by blast
  from c1 c2 c3 c4 c5 show ?thesis by blast
qed

section \<open>Video upload\<close>

lemma uploadVideo_calls:
  "calls (snd (uploadVideo env f w)) =
     calls w @ [UploadBytes (storageKey (randomUUID env) (cleanFileName (file_name f))) f]"
  by (simp add: uploadVideo_def uploadBytes_def storageKey_def Let_def split: option.splits)

lemma uploadVideo_docs: "docs (snd (uploadVideo env f w)) = docs w"
  by (simp add: uploadVideo_def uploadBytes_def Let_def split: option.splits)

lemma uploadVideo_ok:
  "uploadBytes_error env = None \<Longrightarrow>
     fst (uploadVideo env f w) =
       Inr (publicUrl (js ''cdn.gridrr.com'') (randomUUID env) (cleanFileName (file_name f)))
     \<and> blobs (snd (uploadVideo env f w)) =
         (blobs w)(storageKey (randomUUID env) (cleanFileName (file_name f)) \<mapsto> f)"
  by (simp add: uploadVideo_def uploadBytes_def storageKey_def publicUrl_def Let_def js_def)

lemma publicUrl_key:
  "publicUrl cdnHost token n = js ''https://'' @ cdnHost @ js ''/'' @ storageKey token n"
  by (simp add: publicUrl_def storageKey_def js_def)

lemma newCalls_append: "calls w' = calls w @ cs \<Longrightarrow> newCalls w w' = cs"
  by (simp add: newCalls_def)

text \<open>
  Claim C4. For every uploaded video file, \<open>uploadVideo\<close> makes exactly one service
  call, the upload under the blob key \<open>"videos/" + token + "_" + sanitizedName\<close>; the
  provider's download-URL accessor is not among its calls. When the upload succeeds the
  object is stored under that key and the URL returned is
  \<open>https://cdn.gridrr.com/videos/<token>_<sanitizedFileName>\<close>, built from the same token
  and sanitized name, and the path of such a URL is the blob key.
\<close>

theorem uploadVideo_cdn_url:
  "newCalls w (snd (uploadVideo env f w)) =
     [UploadBytes (storageKey (randomUUID env) (cleanFileName (file_name f))) f]
   \<and> filter isGetDownloadURL (newCalls w (snd (uploadVideo env f w))) = []
   \<and> (uploadBytes_error env = None \<longrightarrow>
        fst (uploadVideo env f w) =
          Inr (publicUrl (js ''cdn.gridrr.com'') (randomUUID env) (cleanFileName (file_name f)))
        \<and> blobs (snd (uploadVideo env f w)) =
            (blobs w)(storageKey (randomUUID env) (cleanFileName (file_name f)) \<mapsto> f))
   \<and> publicUrl cdnHost token sanitizedName =
        js ''https://'' @ cdnHost @ js ''/'' @ storageKey token sanitizedName"
  using uploadVideo_ok [of env f w]
  by (simp add: newCalls_append [OF uploadVideo_calls] publicUrl_key)

theorem uploadVideo_cdn_url_witness:
  "uploadBytes_error env_ok = None
   \<and> fst (uploadVideo env_ok file0 world0) = Inr (js ''https://cdn.gridrr.com/videos/u1_a_b.mp4'')
   \<and> blobs (snd (uploadVideo env_ok file0 world0)) (js ''videos/u1_a_b.mp4'') = Some file0
   \<and> newCalls world0 (snd (uploadVideo env_ok file0 world0)) =
        [UploadBytes (js ''videos/u1_a_b.mp4'') file0]"
proof -
  have ok: "uploadBytes_error env_ok = None" by (simp add: env_ok_def)
  have key: "storageKey (randomUUID env_ok) (cleanFileName (file_name file0)) = js ''videos/u1_a_b.mp4''"
    by (simp add: storageKey_def env_ok_def file0_def cleanFileName_def js_def
        matchesSpecial_def isWordChar_def isDigit_def)
  have url: "publicUrl (js ''cdn.gridrr.com'') (randomUUID env_ok) (cleanFileName (file_name file0))
      = js ''https://cdn.gridrr.com/videos/u1_a_b.mp4''"
    by (simp add: publicUrl_def env_ok_def file0_def cleanFileName_def js_def
        matchesSpecial_def isWordChar_def isDigit_def)
  from uploadVideo_cdn_url [of world0 env_ok file0] ok key url show ?thesis
    by simp
qed

section \<open>Failure paths of a submission\<close>

lemma handleSubmit_upload_fails:
  assumes cfg: "\<not> falsy (VITE_FIREBASE_API_KEY env)" "\<not> falsy (VITE_FIREBASE_PROJECT_ID env)"
    and vf: "videoFile ui = Some f"
    and up: "fst (uploadVideo env f w) = Inl err"
  shows "handleSubmit env ui w =
           (ui\<lparr>isSubmitting := False,
               submitMessage := Some (js ''Failed to upload video. Please try again.''),
               isUploadingVideo := False\<rparr>,
            snd (uploadVideo env f w))"
proof -
  obtain r w1 where eq: "uploadVideo env f w = (r, w1)"
    by (cases "uploadVideo env f w")
  with up have r: "r = Inl err"
    by simp
  show ?thesis
    using cfg vf by (simp add: handleSubmit_def Let_def eq r)
qed

lemma handleSubmit_unconfigured:
  assumes "falsy (VITE_FIREBASE_API_KEY env) \<or> falsy (VITE_FIREBASE_PROJECT_ID env)"
  shows "handleSubmit env ui w =
           (ui\<lparr>isSubmitting := False,
               submitMessage := Some (js ''Firebase configuration is missing. Please check your .env file with your Firebase project settings.'')\<rparr>,
            w)"
  using assms by (simp add: handleSubmit_def Let_def)

lemma newCalls_same: "newCalls w w = []"
  by (simp add: newCalls_def)

text \<open>
  Claim C1. For every submission with a video attached, if the video upload fails then
  \<open>handleSubmit\<close> leaves the catalog as it was and none of the calls it makes is an
  insert into the document store. With the configuration present, its only service call
  is the upload that failed, and it ends with the message of the failed upload and with
  \<open>isSubmitting\<close> and \<open>isUploadingVideo\<close> reset.
\<close>

theorem handleSubmit_failed_upload_no_create:
  assumes vf: "videoFile ui = Some f"
    and up: "fst (uploadVideo env f w) = Inl err"
  shows "docs (snd (handleSubmit env ui w)) = docs w
       \<and> filter isAddDoc (newCalls w (snd (handleSubmit env ui w))) = []
       \<and> (\<not> falsy (VITE_FIREBASE_API_KEY env) \<and> \<not> falsy (VITE_FIREBASE_PROJECT_ID env) \<longrightarrow>
            newCalls w (snd (handleSubmit env ui w)) =
              [UploadBytes (storageKey (randomUUID env) (cleanFileName (file_name f))) f]
            \<and> submitMessage (fst (handleSubmit env ui w)) =
                Some (js ''Failed to upload video. Please try again.'')
            \<and> \<not> isSubmitting (fst (handleSubmit env ui w))
            \<and> \<not> isUploadingVideo (fst (handleSubmit env ui w)))"
proof (cases "falsy (VITE_FIREBASE_API_KEY env) \<or> falsy (VITE_FIREBASE_PROJECT_ID env)")
  case True
  then have "handleSubmit env ui w =
           (ui\<lparr>isSubmitting := False,
               submitMessage := Some (js ''Firebase configuration is missing. Please check your .env file with your Firebase project settings.'')\<rparr>,
            w)"
    by (rule handleSubmit_unconfigured)
  with True show ?thesis
    by (auto simp: newCalls_same)
next
  case False
  then have hs: "handleSubmit env ui w =
           (ui\<lparr>isSubmitting := False,
               submitMessage := Some (js ''Failed to upload video. Please try again.''),
               isUploadingVideo := False\<rparr>,
            snd (uploadVideo env f w))"
    using handleSubmit_upload_fails [OF _ _ vf up] by simp
  show ?thesis
    by (simp add: hs uploadVideo_docs newCalls_append [OF uploadVideo_calls])
qed

theorem handleSubmit_failed_upload_no_create_witness:
  "videoFile ui_video = Some file0
   \<and> fst (uploadVideo env_upload_fails file0 world0) = Inl (Error (js ''Failed to upload video''))
   \<and> docs (snd (handleSubmit env_upload_fails ui_video world0)) = []
   \<and> filter isAddDoc (newCalls world0 (snd (handleSubmit env_upload_fails ui_video world0))) = []
   \<and> submitMessage (fst (handleSubmit env_upload_fails ui_video world0)) =
        Some (js ''Failed to upload video. Please try again.'')"
proof -
  have vf: "videoFile ui_video = Some file0"
    by (simp add: ui_video_def)
  have up: "fst (uploadVideo env_upload_fails file0 world0) = Inl (Error (js ''Failed to upload video''))"
    by (simp add: uploadVideo_def uploadBytes_def env_upload_fails_def Let_def)
  have cfg: "\<not> falsy (VITE_FIREBASE_API_KEY env_upload_fails) \<and> \<not> falsy (VITE_FIREBASE_PROJECT_ID env_upload_fails)"
    by (simp add: env_upload_fails_def env_ok_def falsy_def js_def)
  have d0: "docs world0 = []"
    by (simp add: world0_def)
  from handleSubmit_failed_upload_no_create [OF vf up] cfg d0 vf up show ?thesis
    by simp
qed

text \<open>
  Claim C9. If \<open>VITE_FIREBASE_API_KEY\<close> or \<open>VITE_FIREBASE_PROJECT_ID\<close> is unset (or
  empty), \<open>saveWebsite\<close> throws its configuration error and the world is exactly as
  before: no insert was attempted and the catalog is unchanged. \<open>handleSubmit\<close> makes
  the same check before the upload: it sets its configuration message and the world is
  exactly as before, so neither a blob nor a catalog entry is written.
\<close>

theorem missing_configuration_no_writes:
  assumes "falsy (VITE_FIREBASE_API_KEY env) \<or> falsy (VITE_FIREBASE_PROJECT_ID env)"
  shows "saveWebsite env d w =
           (Inl (Error (js ''Firebase configuration is missing. Please check your .env file.'')), w)
       \<and> snd (handleSubmit env ui w) = w
       \<and> submitMessage (fst (handleSubmit env ui w)) =
           Some (js ''Firebase configuration is missing. Please check your .env file with your Firebase project settings.'')
       \<and> \<not> isSubmitting (fst (handleSubmit env ui w))"
  using assms by (simp add: saveWebsite_def handleSubmit_unconfigured)

theorem missing_configuration_no_writes_witness:
  "VITE_FIREBASE_API_KEY env_unconfigured = None
   \<and> fst (saveWebsite env_unconfigured (websiteData form0 None) world0) =
       Inl (Error (js ''Firebase configuration is missing. Please check your .env file.''))
   \<and> snd (saveWebsite env_unconfigured (websiteData form0 None) world0) = world0
   \<and> snd (handleSubmit env_unconfigured ui_video world0) = world0"
proof -
  have unset: "VITE_FIREBASE_API_KEY env_unconfigured = None"
    by (simp add: env_unconfigured_def)
  then have "falsy (VITE_FIREBASE_API_KEY env_unconfigured) \<or> falsy (VITE_FIREBASE_PROJECT_ID env_unconfigured)"
    by (simp add: falsy_def)
  from missing_configuration_no_writes [OF this] unset show ?thesis
    by simp
qed

section \<open>The catalog operations\<close>

lemma saveWebsite_rejected:
  assumes "\<not> falsy (VITE_FIREBASE_API_KEY env)" "\<not> falsy (VITE_FIREBASE_PROJECT_ID env)"
    and "addDoc_result env = Inl e"
  shows "saveWebsite env d w =
           (Inl e, w\<lparr>calls := calls w @ [AddDoc (websiteWithMetadata d (now env))]\<rparr>)"
  using assms by (simp add: saveWebsite_def addDoc_def Let_def)

lemma saveWebsite_accepted:
  assumes "\<not> falsy (VITE_FIREBASE_API_KEY env)" "\<not> falsy (VITE_FIREBASE_PROJECT_ID env)"
    and "addDoc_result env = Inr newId"
  shows "saveWebsite env d w =
           (Inr newId, w\<lparr>calls := calls w @ [AddDoc (websiteWithMetadata d (now env))],
                          docs := docs w @ [(newId, websiteWithMetadata d (now env))]\<rparr>)"
  using assms by (simp add: saveWebsite_def addDoc_def Let_def)

lemma getWebsites_failed:
  "getDocs_error env = Some e \<Longrightarrow>
     getWebsites env w = (Inl (Error (js ''Failed to fetch websites'')), w\<lparr>calls := calls w @ [GetDocs]\<rparr>)"
  by (simp add: getWebsites_def getDocs_def Let_def)

lemma getWebsites_listed:
  "getDocs_error env = None \<Longrightarrow>
     getWebsites env w =
       (Inr (map withDocId (orderBy uploadedAt desc (docs w))), w\<lparr>calls := calls w @ [GetDocs]\<rparr>)"
  by (simp add: getWebsites_def getDocs_def Let_def)

lemma deleteWebsite_refused:
  "doc websiteId = None \<Longrightarrow>
     deleteWebsite env websiteId w = (Inl (Error (js ''Failed to delete website'')), w)"
  by (simp add: deleteWebsite_def)

lemma deleteWebsite_failed:
  "doc websiteId = Some websiteRef \<Longrightarrow> deleteDoc_error env = Some e \<Longrightarrow>
     deleteWebsite env websiteId w =
       (Inl (Error (js ''Failed to delete website'')), w\<lparr>calls := calls w @ [DeleteDoc websiteRef]\<rparr>)"
  by (simp add: deleteWebsite_def deleteDoc_def Let_def)

lemma deleteWebsite_done:
  "doc websiteId = Some websiteRef \<Longrightarrow> deleteDoc_error env = None \<Longrightarrow>
     deleteWebsite env websiteId w =
       (Inr (), w\<lparr>calls := calls w @ [DeleteDoc websiteRef],
                   docs := filter (\<lambda>d. [js ''websites'', fst d] \<noteq> websiteRef) (docs w)\<rparr>)"
  by (simp add: deleteWebsite_def deleteDoc_def Let_def)

lemma split_without_sep: "sep \<notin> set s \<Longrightarrow> split sep s = [s]"
  by (induction s) auto

lemma no_slash_no_double: "0x2F \<notin> set s \<Longrightarrow> \<not> containsDoubleSlash s"
  by (induction s rule: containsDoubleSlash.induct) auto

lemma doc_plain:
  "websiteId \<noteq> [] \<Longrightarrow> 0x2F \<notin> set websiteId \<Longrightarrow> doc websiteId = Some [js ''websites'', websiteId]"
  by (simp add: doc_def split_without_sep no_slash_no_double)

text \<open>
  Claim C7, as stated, fails for \<open>getWebsites\<close>: when the document store rejects the
  query with the error \<open>denied\<close>, the caller does not receive that error.
\<close>

theorem list_failure_not_verbatim_counterexample:
  "getDocs_error env_read_denied = Some (Error (js ''denied''))
   \<and> fst (getWebsites env_read_denied world0) \<noteq> Inl (Error (js ''denied''))"
  by (simp add: getWebsites_failed env_read_denied_def js_def)

text \<open>
  Claim C7, amended. When the document store fails, \<open>saveWebsite\<close> surfaces the store's
  error verbatim, while \<open>getWebsites\<close> and \<open>deleteWebsite\<close> surface a new error with
  the fixed message \<open>Failed to fetch websites\<close>, respectively
  \<open>Failed to delete website\<close>, in place of the original (for \<open>deleteWebsite\<close>, with an
  identifier that \<open>doc\<close> has resolved to a reference, so that the store is called at all).
  None of the three retries: each makes exactly one call to the document store, and the
  catalog is unchanged.
\<close>

theorem persistence_failure_surfaced:
  "(\<not> falsy (VITE_FIREBASE_API_KEY env) \<and> \<not> falsy (VITE_FIREBASE_PROJECT_ID env)
      \<and> addDoc_result env = Inl e \<longrightarrow>
        fst (saveWebsite env d w) = Inl e
        \<and> newCalls w (snd (saveWebsite env d w)) = [AddDoc (websiteWithMetadata d (now env))]
        \<and> docs (snd (saveWebsite env d w)) = docs w)
   \<and> (getDocs_error env = Some e \<longrightarrow>
        fst (getWebsites env w) = Inl (Error (js ''Failed to fetch websites''))
        \<and> newCalls w (snd (getWebsites env w)) = [GetDocs]
        \<and> docs (snd (getWebsites env w)) = docs w)
   \<and> (doc websiteId = Some websiteRef \<and> deleteDoc_error env = Some e \<longrightarrow>
        fst (deleteWebsite env websiteId w) = Inl (Error (js ''Failed to delete website''))
        \<and> newCalls w (snd (deleteWebsite env websiteId w)) = [DeleteDoc websiteRef]
        \<and> docs (snd (deleteWebsite env websiteId w)) = docs w)"
  by (simp add: saveWebsite_rejected getWebsites_failed deleteWebsite_failed newCalls_def)

theorem persistence_failure_surfaced_witness:
  "addDoc_result env_write_rejected = Inl (Error (js ''rejected''))
   \<and> fst (saveWebsite env_write_rejected (websiteData form0 None) world3) = Inl (Error (js ''rejected''))
   \<and> length (newCalls world3 (snd (saveWebsite env_write_rejected (websiteData form0 None) world3))) = 1
   \<and> getDocs_error env_read_denied = Some (Error (js ''denied''))
   \<and> fst (getWebsites env_read_denied world3) = Inl (Error (js ''Failed to fetch websites''))
   \<and> newCalls world3 (snd (getWebsites env_read_denied world3)) = [GetDocs]
   \<and> doc (js ''i1'') = Some [js ''websites'', js ''i1'']
   \<and> deleteDoc_error env_delete_denied = Some (Error (js ''denied''))
   \<and> fst (deleteWebsite env_delete_denied (js ''i1'') world3) = Inl (Error (js ''Failed to delete website''))
   \<and> docs (snd (deleteWebsite env_delete_denied (js ''i1'') world3)) = docs world3"
proof -
  have a: "\<not> falsy (VITE_FIREBASE_API_KEY env_write_rejected)
      \<and> \<not> falsy (VITE_FIREBASE_PROJECT_ID env_write_rejected)
      \<and> addDoc_result env_write_rejected = Inl (Error (js ''rejected''))"
    by (simp add: env_write_rejected_def env_ok_def falsy_def js_def)
  have b: "getDocs_error env_read_denied = Some (Error (js ''denied''))"
    by (simp add: env_read_denied_def)
  have c: "deleteDoc_error env_delete_denied = Some (Error (js ''denied''))"
    by (simp add: env_delete_denied_def)
  from a persistence_failure_surfaced
    [of env_write_rejected "Error (js ''rejected'')" "websiteData form0 None" world3]
  have sa: "fst (saveWebsite env_write_rejected (websiteData form0 None) world3) = Inl (Error (js ''rejected''))
      \<and> length (newCalls world3 (snd (saveWebsite env_write_rejected (websiteData form0 None) world3))) = 1"
    by simp
  from b persistence_failure_surfaced [of env_read_denied "Error (js ''denied'')" _ world3]
  have sb: "fst (getWebsites env_read_denied world3) = Inl (Error (js ''Failed to fetch websites''))
      \<and> newCalls world3 (snd (getWebsites env_read_denied world3)) = [GetDocs]"
    by simp
  have r: "doc (js ''i1'') = Some [js ''websites'', js ''i1'']"
    by (simp add: doc_def js_def)
  from c r persistence_failure_surfaced
    [of env_delete_denied "Error (js ''denied'')" _ world3 "js ''i1''" "[js ''websites'', js ''i1'']"]
  have sc: "fst (deleteWebsite env_delete_denied (js ''i1'') world3) = Inl (Error (js ''Failed to delete website''))
      \<and> docs (snd (deleteWebsite env_delete_denied (js ''i1'') world3)) = docs world3"
    by simp
  from a b c r sa sb sc show ?thesis
    by simp
qed

text \<open>
  Claim C6, as stated, fails: the empty identifier is not in the catalog and the store
  rejects nothing, yet \<open>deleteWebsite\<close> raises an error, because \<open>doc\<close> refuses the
  identifier before the store is called.
\<close>

theorem deleteWebsite_empty_id_counterexample:
  "js '''' \<notin> set (map fst (docs world3))
   \<and> deleteDoc_error env_ok = None
   \<and> fst (deleteWebsite env_ok (js '''') world3) = Inl (Error (js ''Failed to delete website''))"
  by (simp add: deleteWebsite_def doc_def world3_def world0_def env_ok_def js_def)

text \<open>
  Claim C6, amended. \<open>deleteWebsite\<close> on an identifier that \<open>doc\<close> accepts (in
  particular one that is not empty and contains no slash) and that names no entry of the
  catalog raises no error when the store accepts the call, and leaves the catalog
  unchanged; in general an accepted delete removes the entries that the reference names
  and nothing else, so a second delete of the same identifier changes nothing.
  \<open>deleteWebsite\<close> fails exactly when \<open>doc\<close> refuses the identifier, in which case nothing
  is called and the world is as before, or when the store's \<open>deleteDoc\<close> call, made once,
  is rejected.
\<close>

theorem deleteWebsite_absent_id:
  "(websiteId \<noteq> [] \<and> 0x2F \<notin> set websiteId \<and> deleteDoc_error env = None
      \<and> websiteId \<notin> fst ` set (docs w) \<longrightarrow>
      fst (deleteWebsite env websiteId w) = Inr ()
      \<and> docs (snd (deleteWebsite env websiteId w)) = docs w)
   \<and> (doc websiteId = Some websiteRef \<and> deleteDoc_error env = None
      \<and> websiteRef \<notin> (\<lambda>d. [js ''websites'', fst d]) ` set (docs w) \<longrightarrow>
      fst (deleteWebsite env websiteId w) = Inr ()
      \<and> docs (snd (deleteWebsite env websiteId w)) = docs w)
   \<and> (doc websiteId = Some websiteRef \<and> deleteDoc_error env = None \<longrightarrow>
        fst (deleteWebsite env websiteId w) = Inr ()
        \<and> docs (snd (deleteWebsite env websiteId w)) =
            filter (\<lambda>d. [js ''websites'', fst d] \<noteq> websiteRef) (docs w)
        \<and> websiteRef \<notin> (\<lambda>d. [js ''websites'', fst d]) ` set (docs (snd (deleteWebsite env websiteId w))))
   \<and> ((\<exists>err. fst (deleteWebsite env websiteId w) = Inl err) \<longleftrightarrow>
        doc websiteId = None \<or> deleteDoc_error env \<noteq> None)
   \<and> (doc websiteId = Some websiteRef \<longrightarrow>
        newCalls w (snd (deleteWebsite env websiteId w)) = [DeleteDoc websiteRef])
   \<and> (doc websiteId = None \<longrightarrow> snd (deleteWebsite env websiteId w) = w)"
proof -
  have keep: "filter (\<lambda>d. [js ''websites'', fst d] \<noteq> r) (docs w) = docs w"
    if "r \<notin> (\<lambda>d. [js ''websites'', fst d]) ` set (docs w)" for r
    using that by (auto simp: filter_id_conv)
  have absent: "fst (deleteWebsite env websiteId w) = Inr ()
      \<and> docs (snd (deleteWebsite env websiteId w)) = docs w"
    if r: "doc websiteId = Some websiteRef" and ok: "deleteDoc_error env = None"
      and nin: "websiteRef \<notin> (\<lambda>d. [js ''websites'', fst d]) ` set (docs w)"
    by (simp add: deleteWebsite_done [OF r ok] keep [OF nin])
  have plain: "fst (deleteWebsite env websiteId w) = Inr ()
      \<and> docs (snd (deleteWebsite env websiteId w)) = docs w"
    if ne: "websiteId \<noteq> []" and ns: "0x2F \<notin> set websiteId" and ok: "deleteDoc_error env = None"
      and nin: "websiteId \<notin> fst ` set (docs w)"
  proof -
    have r: "doc websiteId = Some [js ''websites'', websiteId]"
      using ne ns by (rule doc_plain)
    have "filter (\<lambda>d. fst d \<noteq> websiteId) (docs w) = docs w"
      using nin by (auto simp: filter_id_conv)
    then show ?thesis
      by (simp add: deleteWebsite_done [OF r ok])
  qed
  have removed: "fst (deleteWebsite env websiteId w) = Inr ()
        \<and> docs (snd (deleteWebsite env websiteId w)) =
            filter (\<lambda>d. [js ''websites'', fst d] \<noteq> websiteRef) (docs w)
        \<and> websiteRef \<notin> (\<lambda>d. [js ''websites'', fst d]) ` set (docs (snd (deleteWebsite env websiteId w)))"
    if r: "doc websiteId = Some websiteRef" and ok: "deleteDoc_error env = None"
    by (auto simp: deleteWebsite_done [OF r ok])
  have fails: "(\<exists>err. fst (deleteWebsite env websiteId w) = Inl err) \<longleftrightarrow>
        doc websiteId = None \<or> deleteDoc_error env \<noteq> None"
  proof (cases "doc websiteId")
    case None
    then show ?thesis
      by (simp add: deleteWebsite_refused)
  next
    case (Some r)
    then show ?thesis
      by (cases "deleteDoc_error env") (simp_all add: deleteWebsite_done deleteWebsite_failed)
  qed
  have once: "newCalls w (snd (deleteWebsite env websiteId w)) = [DeleteDoc websiteRef]"
    if r: "doc websiteId = Some websiteRef"
    by (cases "deleteDoc_error env")
      (simp_all add: deleteWebsite_done [OF r] deleteWebsite_failed [OF r] newCalls_def)
  have refused: "snd (deleteWebsite env websiteId w) = w" if "doc websiteId = None"
    using that by (simp add: deleteWebsite_refused)
  from plain absent removed fails once refused show ?thesis
    by blast
qed

theorem deleteWebsite_absent_id_witness:
  "deleteDoc_error env_ok = None
   \<and> js ''zz'' \<notin> fst ` set (docs world3)
   \<and> fst (deleteWebsite env_ok (js ''zz'') world3) = Inr ()
   \<and> docs (snd (deleteWebsite env_ok (js ''zz'') world3)) = docs world3
   \<and> doc (js ''i2'') = Some [js ''websites'', js ''i2'']
   \<and> map fst (docs (snd (deleteWebsite env_ok (js ''i2'') world3))) = [js ''i1'', js ''i3'']
   \<and> doc (js ''a/b'') = None
   \<and> snd (deleteWebsite env_ok (js ''a/b'') world3) = world3"
proof -
  have a: "deleteDoc_error env_ok = None"
    by (simp add: env_ok_def)
  have b: "js ''zz'' \<notin> fst ` set (docs world3)"
    by (simp add: world3_def world0_def js_def)
  have zz: "js ''zz'' \<noteq> [] \<and> 0x2F \<notin> set (js ''zz'')"
    by (simp add: js_def)
  have r2: "doc (js ''i2'') = Some [js ''websites'', js ''i2'']"
    by (simp add: doc_def js_def)
  have c: "map fst (filter (\<lambda>d. [js ''websites'', fst d] \<noteq> [js ''websites'', js ''i2'']) (docs world3)) =
      [js ''i1'', js ''i3'']"
    by (simp add: world3_def world0_def js_def)
  have r3: "doc (js ''a/b'') = None"
    by (simp add: doc_def js_def)
  note i1 = deleteWebsite_absent_id [of "js ''zz''" env_ok world3, THEN conjunct1]
  note i2 = deleteWebsite_absent_id [of "js ''i2''" _ _ "[js ''websites'', js ''i2'']",
      THEN conjunct2, THEN conjunct2, THEN conjunct1]
  note i3 = deleteWebsite_absent_id [of "js ''a/b''",
      THEN conjunct2, THEN conjunct2, THEN conjunct2, THEN conjunct2, THEN conjunct2]
  from i1 a b zz have s1: "fst (deleteWebsite env_ok (js ''zz'') world3) = Inr ()
      \<and> docs (snd (deleteWebsite env_ok (js ''zz'') world3)) = docs world3"
    by blast
  from i2 [of env_ok world3] r2 a have "docs (snd (deleteWebsite env_ok (js ''i2'') world3)) =
      filter (\<lambda>d. [js ''websites'', fst d] \<noteq> [js ''websites'', js ''i2'']) (docs world3)"
    by blast
  with c have s2: "map fst (docs (snd (deleteWebsite env_ok (js ''i2'') world3))) = [js ''i1'', js ''i3'']"
    by (simp only:)
  from i3 [of env_ok world3] r3 have s3: "snd (deleteWebsite env_ok (js ''a/b'') world3) = world3"
    by blast
  from a b s1 r2 s2 r3 s3 show ?thesis
    by blast
qed

section \<open>Listing the catalog\<close>

lemma mset_orderBy: "mset (orderBy field dir ds) = mset ds"
  by (cases dir) (simp_all add: orderBy_def)

lemma set_orderBy: "set (orderBy field dir ds) = set ds"
  by (metis mset_orderBy set_mset_mset)

lemma sorted_orderBy_desc:
  "sorted_wrt (\<lambda>a b. field (snd b) \<le> field (snd a)) (orderBy field desc ds)"
proof -
  have "sorted (map (\<lambda>d. field (snd d)) (sort_key (\<lambda>d. field (snd d)) (rev ds)))"
    by (rule sorted_sort_key)
  then have "sorted_wrt (\<lambda>a b. field (snd a) \<le> field (snd b)) (sort_key (\<lambda>d. field (snd d)) (rev ds))"
    by (simp add: sorted_map)
  then show ?thesis
    by (simp add: orderBy_def sorted_wrt_rev)
qed

lemma uploadedAt_withDocId: "uploadedAt (withDocId d) = uploadedAt (snd d)"
  by (simp add: withDocId_def)

lemma orderBy_desc_three:
  assumes "field d1 < field d2" "field d2 < field d3"
  shows "orderBy field desc [(i1, d1), (i2, d2), (i3, d3)] = [(i3, d3), (i2, d2), (i1, d1)]"
  using assms by (auto simp: orderBy_def)

text \<open>
  Claim C3. When the query is answered, \<open>getWebsites\<close> returns all entries of the
  catalog, one per stored document, ordered by \<open>uploadedAt\<close> descending: the timestamps
  of the listing are the timestamps of the catalog sorted and reversed. In particular a
  catalog of entries inserted with timestamps t1 < t2 < t3 is listed in the order
  [t3, t2, t1].
\<close>

theorem getWebsites_newest_first:
  assumes ok: "getDocs_error env = None"
  shows "\<exists>ws. fst (getWebsites env w) = Inr ws
      \<and> mset ws = mset (map withDocId (docs w))
      \<and> sorted_wrt (\<lambda>a b. uploadedAt b \<le> uploadedAt a) ws
      \<and> map uploadedAt ws = rev (sort (map (\<lambda>d. uploadedAt (snd d)) (docs w)))
      \<and> (\<forall>i1 d1 i2 d2 i3 d3.
            docs w = [(i1, d1), (i2, d2), (i3, d3)]
            \<and> uploadedAt d1 < uploadedAt d2 \<and> uploadedAt d2 < uploadedAt d3
            \<longrightarrow> ws = [withDocId (i3, d3), withDocId (i2, d2), withDocId (i1, d1)])"
proof -
  let ?q = "orderBy uploadedAt desc (docs w)"
  let ?ws = "map withDocId ?q"
  have res: "fst (getWebsites env w) = Inr ?ws"
    by (simp add: getWebsites_listed [OF ok])
  have perm: "mset ?ws = mset (map withDocId (docs w))"
    by (simp add: mset_orderBy)
  have srt: "sorted_wrt (\<lambda>a b. uploadedAt b \<le> uploadedAt a) ?ws"
    using sorted_orderBy_desc [of uploadedAt "docs w"]
    by (simp add: sorted_wrt_map uploadedAt_withDocId)
  have ts: "map uploadedAt ?ws = map (\<lambda>d. uploadedAt (snd d)) ?q"
    by (simp add: uploadedAt_withDocId)
  have s1: "sorted (rev (map (\<lambda>d. uploadedAt (snd d)) ?q))"
    using sorted_orderBy_desc [of uploadedAt "docs w"]
    by (simp add: sorted_wrt_rev sorted_wrt_map)
  have s2: "mset (rev (map (\<lambda>d. uploadedAt (snd d)) ?q)) = mset (map (\<lambda>d. uploadedAt (snd d)) (docs w))"
    by (simp add: mset_orderBy)
  have s3: "sort (map (\<lambda>d. uploadedAt (snd d)) (docs w)) = rev (map (\<lambda>d. uploadedAt (snd d)) ?q)"
    by (rule properties_for_sort [OF s2 s1])
  have desc: "map uploadedAt ?ws = rev (sort (map (\<lambda>d. uploadedAt (snd d)) (docs w)))"
    by (simp only: ts s3 rev_rev_ident)
  have three: "\<forall>i1 d1 i2 d2 i3 d3.
            docs w = [(i1, d1), (i2, d2), (i3, d3)]
            \<and> uploadedAt d1 < uploadedAt d2 \<and> uploadedAt d2 < uploadedAt d3
            \<longrightarrow> ?ws = [withDocId (i3, d3), withDocId (i2, d2), withDocId (i1, d1)]"
    by (auto simp: orderBy_desc_three)
  from res perm srt desc three show ?thesis
    by blast
qed


theorem getWebsites_newest_first_witness:
  "getDocs_error env_ok = None
   \<and> map_sum (\<lambda>e. e) (map uploadedAt) (fst (getWebsites env_ok world3)) = Inr [3, 2, 1]
   \<and> map_sum (\<lambda>e. e) (map id_opt) (fst (getWebsites env_ok world3)) =
       Inr [Some (js ''i3''), Some (js ''i2''), Some (js ''i1'')]"
proof -
  have ok: "getDocs_error env_ok = None"
    by (simp add: env_ok_def)
  have ds: "docs world3 = [(js ''i1'', sampleDoc 1), (js ''i2'', sampleDoc 2), (js ''i3'', sampleDoc 3)]
      \<and> uploadedAt (sampleDoc 1) < uploadedAt (sampleDoc 2)
      \<and> uploadedAt (sampleDoc 2) < uploadedAt (sampleDoc 3)"
    by (simp add: world3_def world0_def sampleDoc_def websiteWithMetadata_def)
  from getWebsites_newest_first [OF ok, of world3] ds
  have "fst (getWebsites env_ok world3) =
      Inr [withDocId (js ''i3'', sampleDoc 3), withDocId (js ''i2'', sampleDoc 2),
           withDocId (js ''i1'', sampleDoc 1)]"
    by blast
  with ok show ?thesis
    by (simp add: withDocId_def sampleDoc_def websiteWithMetadata_def)
qed

lemma withDocId_no_id: "id_opt (snd d) = None \<Longrightarrow> withDocId d = (snd d)\<lparr>id_opt := Some (fst d)\<rparr>"
  by (simp add: withDocId_def)

lemma withDocId_own_id: "id_opt (snd d) = Some v \<Longrightarrow> withDocId d = snd d"
  by (simp add: withDocId_def)

lemma saveWebsite_docs:
  "docs (snd (saveWebsite env input w)) = docs w
   \<or> (\<exists>newId. docs (snd (saveWebsite env input w)) = docs w @ [(newId, websiteWithMetadata input (now env))])"
  by (simp add: saveWebsite_def addDoc_def Let_def split: sum.splits)

lemma websiteWithMetadata_fields:
  "id_opt (websiteWithMetadata input t) = None
   \<and> uploadedAt (websiteWithMetadata input t) = t
   \<and> WebsiteInput.truncate (websiteWithMetadata input t) = input"
  by (simp add: websiteWithMetadata_def WebsiteInput.truncate_def)

text \<open>
  Claim C10. \<open>getWebsites\<close> returns one entry per stored document, the document's data
  with the document identifier in \<open>id\<close> when the data has no field \<open>id\<close>; so when no
  stored document has such a field, the identifiers listed are exactly the document
  identifiers. A field \<open>id\<close> in the data overrides the document identifier.
  \<open>saveWebsite\<close> never writes such a field: the document it stores is its argument with
  only \<open>uploadedAt\<close> added, and every document it adds to the catalog has no \<open>id\<close>.
\<close>

theorem getWebsites_document_ids:
  "(getDocs_error env = None \<longrightarrow>
      (\<exists>ws. fst (getWebsites env w) = Inr ws
         \<and> set ws = withDocId ` set (docs w) \<and> length ws = length (docs w)
         \<and> ((\<forall>d \<in> set (docs w). id_opt (snd d) = None) \<longrightarrow>
              mset (map id_opt ws) = mset (map (\<lambda>d. Some (fst d)) (docs w)))))
   \<and> (id_opt (snd d) = None \<longrightarrow> withDocId d = (snd d)\<lparr>id_opt := Some (fst d)\<rparr>)
   \<and> (id_opt (snd d) = Some v \<longrightarrow> withDocId d = snd d)
   \<and> id_opt (websiteWithMetadata input t) = None
   \<and> uploadedAt (websiteWithMetadata input t) = t
   \<and> WebsiteInput.truncate (websiteWithMetadata input t) = input
   \<and> (\<forall>d' \<in> set (docs (snd (saveWebsite env input w))). d' \<in> set (docs w) \<or> id_opt (snd d') = None)"
proof -
  have list: "getDocs_error env = None \<longrightarrow>
      (\<exists>ws. fst (getWebsites env w) = Inr ws
         \<and> set ws = withDocId ` set (docs w) \<and> length ws = length (docs w)
         \<and> ((\<forall>d \<in> set (docs w). id_opt (snd d) = None) \<longrightarrow>
              mset (map id_opt ws) = mset (map (\<lambda>d. Some (fst d)) (docs w))))"
  proof
    assume ok: "getDocs_error env = None"
    let ?q = "orderBy uploadedAt desc (docs w)"
    let ?ws = "map withDocId ?q"
    have res: "fst (getWebsites env w) = Inr ?ws"
      by (simp add: getWebsites_listed [OF ok])
    have st: "set ?ws = withDocId ` set (docs w)"
      by (simp add: set_orderBy)
    have len: "length ?ws = length (docs w)"
      by (metis length_map mset_orderBy size_mset)
    have ids: "mset (map id_opt ?ws) = mset (map (\<lambda>d. Some (fst d)) (docs w))"
      if none: "\<forall>d \<in> set (docs w). id_opt (snd d) = None"
    proof -
      have "mset (map id_opt ?ws) = image_mset (\<lambda>d. id_opt (withDocId d)) (mset ?q)"
        by (simp add: comp_def)
      also have "\<dots> = image_mset (\<lambda>d. id_opt (withDocId d)) (mset (docs w))"
        by (simp add: mset_orderBy)
      also have "\<dots> = image_mset (\<lambda>d. Some (fst d)) (mset (docs w))"
        using none by (intro image_mset_cong) (simp add: withDocId_def)
      finally show ?thesis
        by simp
    qed
    from res st len ids show "\<exists>ws. fst (getWebsites env w) = Inr ws
         \<and> set ws = withDocId ` set (docs w) \<and> length ws = length (docs w)
         \<and> ((\<forall>d \<in> set (docs w). id_opt (snd d) = None) \<longrightarrow>
              mset (map id_opt ws) = mset (map (\<lambda>d. Some (fst d)) (docs w)))"
      by blast
  qed
  have save: "\<forall>d' \<in> set (docs (snd (saveWebsite env input w))). d' \<in> set (docs w) \<or> id_opt (snd d') = None"
    using saveWebsite_docs [of env input w] websiteWithMetadata_fields [of input "now env"]
    by auto
  from list save withDocId_no_id [of d] withDocId_own_id [of d v] websiteWithMetadata_fields [of input t]
  show ?thesis
    by blast
qed

theorem getWebsites_document_ids_witness:
  "getDocs_error env_ok = None
   \<and> map (\<lambda>d. id_opt (snd d)) (docs world3) = [None, None, None]
   \<and> map_sum (\<lambda>e. e) (\<lambda>ws. mset (map id_opt ws)) (fst (getWebsites env_ok world3)) =
       Inr {#Some (js ''i1''), Some (js ''i2''), Some (js ''i3'')#}
   \<and> id_opt (withDocId (js ''i2'', (sampleDoc 2)\<lparr>id_opt := Some (js ''x'')\<rparr>)) = Some (js ''x'')
   \<and> id_opt (websiteWithMetadata (websiteData form0 None) 7) = None"
proof -
  have ok: "getDocs_error env_ok = None"
    by (simp add: env_ok_def)
  have ds: "docs world3 = [(js ''i1'', sampleDoc 1), (js ''i2'', sampleDoc 2), (js ''i3'', sampleDoc 3)]"
    by (simp add: world3_def world0_def)
  have none: "map (\<lambda>d. id_opt (snd d)) (docs world3) = [None, None, None]"
    by (simp add: ds sampleDoc_def websiteWithMetadata_def)
  then have all_none: "\<forall>d \<in> set (docs world3). id_opt (snd d) = None"
    by (simp add: ds)
  let ?d = "(js ''i2'', (sampleDoc 2)\<lparr>id_opt := Some (js ''x'')\<rparr>)"
  note inst = getWebsites_document_ids [of env_ok world3 ?d "js ''x''" "websiteData form0 None" 7]
  from inst ok all_none obtain ws where ws: "fst (getWebsites env_ok world3) = Inr ws"
    and ids: "mset (map id_opt ws) = mset (map (\<lambda>d. Some (fst d)) (docs world3))"
    by blast
  have a: "map_sum (\<lambda>e. e) (\<lambda>ws. mset (map id_opt ws)) (fst (getWebsites env_ok world3)) =
       Inr {#Some (js ''i1''), Some (js ''i2''), Some (js ''i3'')#}"
    using ids by (simp add: ws ds add.commute)
  have "id_opt (snd ?d) = Some (js ''x'')"
    by simp
  with inst have "withDocId ?d = snd ?d"
    by blast
  then have b: "id_opt (withDocId ?d) = Some (js ''x'')"
    by simp
  from inst have c: "id_opt (websiteWithMetadata (websiteData form0 None) 7) = None"
    by blast
  from ok none a b c show ?thesis
    by blast
qed

section \<open>Storage usage\<close>

lemma fold_estimate:
  "fold (\<lambda>item sz. sz + 1048576) items a = a + length items * (1048576::nat)"
  by (induction items arbitrary: a) simp_all

lemma contribution_simps:
  "contribution (Inr items) = \<lparr>count_s = length items, size_s = length items * 1048576\<rparr>"
  "contribution (Inl e) = \<lparr>count_s = 0, size_s = 0\<rparr>"
  by (simp_all add: contribution_def)

lemma getStorageUsage_loop_eq:
  "getStorageUsage_loop env fs (n, sz, stats) w =
     ((n + sum_list (map (\<lambda>f. count_s (contribution (listAll_result env f))) fs),
       sz + sum_list (map (\<lambda>f. size_s (contribution (listAll_result env f))) fs),
       (\<lambda>k. if k \<in> set fs then Some (contribution (listAll_result env k)) else stats k)),
      w\<lparr>calls := calls w @ map ListAll fs\<rparr>)"
proof (induction fs arbitrary: n sz stats w)
  case Nil
  show ?case by simp
next
  case (Cons folder rest)
  show ?case
  proof (cases "listAll_result env folder")
    case (Inl e)
    then show ?thesis
      by (simp add: Cons.IH listAll_def contribution_simps fun_eq_iff)
  next
    case (Inr items)
    then show ?thesis
      by (simp add: Cons.IH listAll_def contribution_simps fold_estimate fun_eq_iff Let_def)
  qed
qed

text \<open>
  Claim C2. For every sequence of folder names, the loop of \<open>getStorageUsage\<close> started
  with empty accumulators gives each folder of the sequence the entry that its own
  listing determines: \<open>{count: n, size: n * 1 MiB}\<close> for a listing of n objects and
  \<open>{count: 0, size: 0}\<close> for a listing that fails; the totals are the sums of these
  counts and sizes over the sequence. The entry of a folder depends on the listing of that
  folder only, so a failure elsewhere does not change it. \<open>getStorageUsage\<close> itself,
  which runs the loop on \<open>videos/\<close> and \<open>websites/\<close>, always returns a report, with
  exactly these two entries and their sums.
\<close>

theorem getStorageUsage_aggregates:
  "(case fst (getStorageUsage_loop env fs (0, 0, Map.empty) w) of
      (n, sz, stats) \<Rightarrow>
        n = sum_list (map (\<lambda>f. count_s (contribution (listAll_result env f))) fs)
        \<and> sz = sum_list (map (\<lambda>f. size_s (contribution (listAll_result env f))) fs)
        \<and> (\<forall>f \<in> set fs. stats f = Some (contribution (listAll_result env f)))
        \<and> (\<forall>f. f \<notin> set fs \<longrightarrow> stats f = None))
   \<and> (\<forall>items. contribution (Inr items) = \<lparr>count_s = length items, size_s = length items * (1024 * 1024)\<rparr>)
   \<and> (\<forall>e. contribution (Inl e) = \<lparr>count_s = 0, size_s = 0\<rparr>)
   \<and> (\<forall>env' f. f \<in> set fs \<and> listAll_result env' f = listAll_result env f \<longrightarrow>
         snd (snd (fst (getStorageUsage_loop env' fs (0, 0, Map.empty) w))) f =
         snd (snd (fst (getStorageUsage_loop env fs (0, 0, Map.empty) w))) f)
   \<and> (\<exists>report. fst (getStorageUsage env w) = Inr report
        \<and> fileCount report =
            count_s (contribution (listAll_result env (js ''videos/'')))
            + count_s (contribution (listAll_result env (js ''websites/'')))
        \<and> totalSize report =
            size_s (contribution (listAll_result env (js ''videos/'')))
            + size_s (contribution (listAll_result env (js ''websites/'')))
        \<and> folders report (js ''videos/'') = Some (contribution (listAll_result env (js ''videos/'')))
        \<and> folders report (js ''websites/'') = Some (contribution (listAll_result env (js ''websites/'')))
        \<and> dom (folders report) = {js ''videos/'', js ''websites/''})"
proof (intro conjI)
  show "case fst (getStorageUsage_loop env fs (0, 0, Map.empty) w) of
      (n, sz, stats) \<Rightarrow>
        n = sum_list (map (\<lambda>f. count_s (contribution (listAll_result env f))) fs)
        \<and> sz = sum_list (map (\<lambda>f. size_s (contribution (listAll_result env f))) fs)
        \<and> (\<forall>f \<in> set fs. stats f = Some (contribution (listAll_result env f)))
        \<and> (\<forall>f. f \<notin> set fs \<longrightarrow> stats f = None)"
    by (simp add: getStorageUsage_loop_eq)
  show "\<forall>items. contribution (Inr items) = \<lparr>count_s = length items, size_s = length items * (1024 * 1024)\<rparr>"
    by (simp add: contribution_simps)
  show "\<forall>e. contribution (Inl e) = \<lparr>count_s = 0, size_s = 0\<rparr>"
    by (simp add: contribution_simps)
  show "\<forall>env' f. f \<in> set fs \<and> listAll_result env' f = listAll_result env f \<longrightarrow>
         snd (snd (fst (getStorageUsage_loop env' fs (0, 0, Map.empty) w))) f =
         snd (snd (fst (getStorageUsage_loop env fs (0, 0, Map.empty) w))) f"
    by (simp add: getStorageUsage_loop_eq)
  show "\<exists>report. fst (getStorageUsage env w) = Inr report
        \<and> fileCount report =
            count_s (contribution (listAll_result env (js ''videos/'')))
            + count_s (contribution (listAll_result env (js ''websites/'')))
        \<and> totalSize report =
            size_s (contribution (listAll_result env (js ''videos/'')))
            + size_s (contribution (listAll_result env (js ''websites/'')))
        \<and> folders report (js ''videos/'') = Some (contribution (listAll_result env (js ''videos/'')))
        \<and> folders report (js ''websites/'') = Some (contribution (listAll_result env (js ''websites/'')))
        \<and> dom (folders report) = {js ''videos/'', js ''websites/''}"
    by (auto simp: getStorageUsage_def getStorageUsage_loop_eq dom_def)
qed


theorem getStorageUsage_aggregates_witness:
  "fst (fst (getStorageUsage_loop env_ok [js ''videos/'', js ''websites/''] (0, 0, Map.empty) world0)) = 3
   \<and> snd (snd (fst (getStorageUsage_loop env_ok [js ''videos/'', js ''websites/''] (0, 0, Map.empty) world0)))
        (js ''videos/'') = Some \<lparr>count_s = 3, size_s = 3145728\<rparr>
   \<and> map_sum (\<lambda>e. e) fileCount (fst (getStorageUsage env_ok world0)) = Inr 3
   \<and> map_sum (\<lambda>e. e) totalSize (fst (getStorageUsage env_ok world0)) = Inr (3 * 1048576)
   \<and> map_sum (\<lambda>e. e) (\<lambda>r. folders r (js ''websites/'')) (fst (getStorageUsage env_ok world0)) =
       Inr (Some \<lparr>count_s = 0, size_s = 0\<rparr>)
   \<and> listAll_result env_list_fails (js ''websites/'') = Inl (Error (js ''unavailable''))
   \<and> map_sum (\<lambda>e. e) fileCount (fst (getStorageUsage env_list_fails world0)) = Inr 2
   \<and> map_sum (\<lambda>e. e) (\<lambda>r. folders r (js ''websites/'')) (fst (getStorageUsage env_list_fails world0)) =
       Inr (Some \<lparr>count_s = 0, size_s = 0\<rparr>)
   \<and> map_sum (\<lambda>e. e) (\<lambda>r. folders r (js ''videos/'')) (fst (getStorageUsage env_list_fails world0)) =
       Inr (Some \<lparr>count_s = 2, size_s = 2097152\<rparr>)"
proof -
  have v1: "contribution (listAll_result env_ok (js ''videos/'')) = \<lparr>count_s = 3, size_s = 3145728\<rparr>"
    by (simp add: env_ok_def contribution_def)
  have w1: "contribution (listAll_result env_ok (js ''websites/'')) = \<lparr>count_s = 0, size_s = 0\<rparr>"
    by (simp add: env_ok_def contribution_def js_def)
  have v2: "contribution (listAll_result env_list_fails (js ''videos/'')) = \<lparr>count_s = 2, size_s = 2097152\<rparr>"
    by (simp add: env_list_fails_def contribution_def)
  have f2: "listAll_result env_list_fails (js ''websites/'') = Inl (Error (js ''unavailable''))"
    by (simp add: env_list_fails_def js_def)
  then have w2: "contribution (listAll_result env_list_fails (js ''websites/'')) = \<lparr>count_s = 0, size_s = 0\<rparr>"
    by (simp add: contribution_def)
  let ?fs = "[js ''videos/'', js ''websites/'']"
  note l1 = getStorageUsage_aggregates [of env_ok ?fs world0, THEN conjunct1]
  note e1 = getStorageUsage_aggregates [of env_ok ?fs world0,
      THEN conjunct2, THEN conjunct2, THEN conjunct2, THEN conjunct2]
  note e2 = getStorageUsage_aggregates [of env_list_fails ?fs world0,
      THEN conjunct2, THEN conjunct2, THEN conjunct2, THEN conjunct2]
  obtain n sz stats where l: "fst (getStorageUsage_loop env_ok ?fs (0, 0, Map.empty) world0) = (n, sz, stats)"
    by (cases "fst (getStorageUsage_loop env_ok ?fs (0, 0, Map.empty) world0)")
  from l1 l have n: "n = sum_list (map (\<lambda>f. count_s (contribution (listAll_result env_ok f))) ?fs)"
    and st: "\<forall>f \<in> set ?fs. stats f = Some (contribution (listAll_result env_ok f))"
    by simp_all
  from n have n3: "n = 3"
    by (simp add: v1 w1)
  from st have sv: "stats (js ''videos/'') = Some \<lparr>count_s = 3, size_s = 3145728\<rparr>"
    by (simp add: v1)
  from e1 obtain r1 where r1: "fst (getStorageUsage env_ok world0) = Inr r1"
    "fileCount r1 = count_s (contribution (listAll_result env_ok (js ''videos/'')))
        + count_s (contribution (listAll_result env_ok (js ''websites/'')))"
    "totalSize r1 = size_s (contribution (listAll_result env_ok (js ''videos/'')))
        + size_s (contribution (listAll_result env_ok (js ''websites/'')))"
    "folders r1 (js ''websites/'') = Some (contribution (listAll_result env_ok (js ''websites/'')))"
    by (elim exE conjE)
  from e2 obtain r2 where r2: "fst (getStorageUsage env_list_fails world0) = Inr r2"
    "fileCount r2 = count_s (contribution (listAll_result env_list_fails (js ''videos/'')))
        + count_s (contribution (listAll_result env_list_fails (js ''websites/'')))"
    "folders r2 (js ''videos/'') = Some (contribution (listAll_result env_list_fails (js ''videos/'')))"
    "folders r2 (js ''websites/'') = Some (contribution (listAll_result env_list_fails (js ''websites/'')))"
    by (elim exE conjE)
  from r1 r2 f2 l n3 sv show ?thesis
    by (simp add: v1 w1 v2 w2 contribution_simps)
qed

section \<open>The entry assembled by a submission\<close>

lemma split_not_Nil: "split sep s \<noteq> []"
  by (induction s) (auto split: list.splits)

lemma split_no_sep: "seg \<in> set (split sep s) \<Longrightarrow> sep \<notin> set seg"
proof (induction s arbitrary: seg)
  case Nil
  then show ?case by simp
next
  case (Cons c cs)
  show ?case
  proof (cases "c = sep")
    case True
    with Cons show ?thesis by auto
  next
    case False
    obtain x xs where sp: "split sep cs = x # xs"
      using split_not_Nil [of sep cs] by (cases "split sep cs") auto
    with Cons.prems False have "seg = c # x \<or> seg \<in> set xs"
      by simp
    with Cons.IH sp False show ?thesis
      by auto
  qed
qed

lemma set_trim: "set (trim s) \<subseteq> set s"
  by (auto simp: trim_def dest!: set_dropWhileD)

lemma last_dropWhile_nonempty: "dropWhile P xs \<noteq> [] \<Longrightarrow> last (dropWhile P xs) = last xs"
  by (metis last_appendR takeWhile_dropWhile_id)

lemma trim_ends:
  assumes "trim s \<noteq> []"
  shows "\<not> isWhiteSpace (hd (trim s)) \<and> \<not> isWhiteSpace (last (trim s))"
proof -
  let ?t = "dropWhile isWhiteSpace s"
  let ?u = "dropWhile isWhiteSpace (rev ?t)"
  from assms have u: "?u \<noteq> []"
    by (simp add: trim_def)
  have t: "?t \<noteq> []"
  proof
    assume "?t = []"
    then have "?u = []"
      by (simp only: rev.simps dropWhile.simps)
    with u show False
      by blast
  qed
  have "last (trim s) = hd ?u"
    using u by (simp add: trim_def last_rev)
  moreover have "\<not> isWhiteSpace (hd ?u)"
    using u by (rule hd_dropWhile)
  moreover have "hd (trim s) = last ?u"
    using u by (simp add: trim_def hd_rev)
  moreover have "last ?u = last (rev ?t)"
    using u by (rule last_dropWhile_nonempty)
  moreover have "last (rev ?t) = hd ?t"
    using t by (simp add: last_rev)
  moreover have "\<not> isWhiteSpace (hd ?t)"
    using t by (rule hd_dropWhile)
  ultimately show ?thesis
    by simp
qed

lemma categories_example:
  "filter (\<lambda>cat. length cat > 0) (map trim (split 0x2C (js ''portfolio, , blog ,''))) =
     [js ''portfolio'', js ''blog'']"
  by (simp add: js_def trim_def isWhiteSpace_def)


lemma handleSubmit_save_calls:
  assumes "\<not> falsy (VITE_FIREBASE_API_KEY env)" "\<not> falsy (VITE_FIREBASE_PROJECT_ID env)"
  shows "calls (snd (handleSubmit_save env v ui w)) =
           calls w @ AddDoc (websiteWithMetadata (websiteData (formData ui) v) (now env))
             # (case addDoc_result env of Inl e \<Rightarrow> [] | Inr newId \<Rightarrow> [GetDocs])"
proof (cases "addDoc_result env")
  case (Inl e)
  then show ?thesis
    by (simp add: handleSubmit_save_def saveWebsite_rejected [OF assms])
next
  case (Inr newId)
  then show ?thesis
    by (simp add: handleSubmit_save_def saveWebsite_accepted [OF assms] loadWebsites_def
        getWebsites_def getDocs_def Let_def split: option.splits)
qed

lemma handleSubmit_no_video:
  assumes "\<not> falsy (VITE_FIREBASE_API_KEY env)" "\<not> falsy (VITE_FIREBASE_PROJECT_ID env)"
    and "videoFile ui = None"
  shows "filter isAddDoc (newCalls w (snd (handleSubmit env ui w))) =
           [AddDoc (websiteWithMetadata (websiteData (formData ui) None) (now env))]"
proof -
  let ?ui = "ui\<lparr>isSubmitting := True, submitMessage := None\<rparr>"
  have "snd (handleSubmit env ui w) = snd (handleSubmit_save env None ?ui w)"
    using assms by (simp add: handleSubmit_def Let_def split: prod.splits)
  then show ?thesis
    by (simp add: newCalls_def handleSubmit_save_calls [OF assms(1,2)] split: sum.splits)
qed

lemma handleSubmit_with_video:
  assumes "\<not> falsy (VITE_FIREBASE_API_KEY env)" "\<not> falsy (VITE_FIREBASE_PROJECT_ID env)"
    and "videoFile ui = Some f" and "uploadBytes_error env = None"
  shows "filter isAddDoc (newCalls w (snd (handleSubmit env ui w))) =
           [AddDoc (websiteWithMetadata (websiteData (formData ui)
              (Some (publicUrl (js ''cdn.gridrr.com'') (randomUUID env) (cleanFileName (file_name f)))))
              (now env))]"
proof -
  let ?ui = "ui\<lparr>isSubmitting := True, submitMessage := None, isUploadingVideo := False\<rparr>"
  let ?u = "publicUrl (js ''cdn.gridrr.com'') (randomUUID env) (cleanFileName (file_name f))"
  obtain r w1 where up: "uploadVideo env f w = (r, w1)"
    by (cases "uploadVideo env f w")
  with uploadVideo_ok [OF assms(4), of f w] have r: "r = Inr ?u"
    by simp
  from up uploadVideo_calls [of env f w]
  have c1: "calls w1 = calls w @ [UploadBytes (storageKey (randomUUID env) (cleanFileName (file_name f))) f]"
    by simp
  have "snd (handleSubmit env ui w) = snd (handleSubmit_save env (Some ?u) ?ui w1)"
    using assms(1,2,3) by (simp add: handleSubmit_def Let_def up r split: prod.splits)
  then show ?thesis
    by (simp add: newCalls_def handleSubmit_save_calls [OF assms(1,2)] c1 split: sum.splits)
qed

lemma publicUrl_not_empty: "publicUrl h t n \<noteq> []"
  by (simp add: publicUrl_def js_def)

text \<open>
  Claim C8. The entry that \<open>handleSubmit\<close> passes to \<open>saveWebsite\<close> is assembled as
  follows. Its categories are the segments of the raw input between commas, trimmed, with
  the empty ones dropped: every category is non-empty, contains no comma and neither
  starts nor ends with white space, and \<open>"portfolio, , blog ,"\<close> gives
  \<open>["portfolio", "blog"]\<close>. A twitter or instagram handle h that is not empty becomes
  \<open>https://twitter.com/h\<close>, respectively \<open>https://instagram.com/h\<close>, and an empty
  handle gives no field. \<open>otherTechnologies\<close> and \<open>videoUrl\<close> are present only when
  not empty. The single insert of a submission without a video carries this entry with
  no \<open>videoUrl\<close>; the insert of a submission whose upload succeeded carries it with the
  URL that \<open>uploadVideo\<close> returned.
\<close>

theorem websiteData_assembled:
  "categories (websiteData fd v) =
     filter (\<lambda>cat. cat \<noteq> []) (map trim (split 0x2C (form_categories fd)))
   \<and> (\<forall>cat \<in> set (categories (websiteData fd v)).
         cat \<noteq> [] \<and> 0x2C \<notin> set cat \<and> \<not> isWhiteSpace (hd cat) \<and> \<not> isWhiteSpace (last cat))
   \<and> (form_categories fd = js ''portfolio, , blog ,'' \<longrightarrow>
         categories (websiteData fd v) = [js ''portfolio'', js ''blog''])
   \<and> twitter (socialLinks (websiteData fd v)) =
       (if form_twitter fd = [] then None else Some (js ''https://twitter.com/'' @ form_twitter fd))
   \<and> instagram (socialLinks (websiteData fd v)) =
       (if form_instagram fd = [] then None else Some (js ''https://instagram.com/'' @ form_instagram fd))
   \<and> otherTechnologies (websiteData fd v) =
       (if form_otherTechnologies fd = [] then None else Some (form_otherTechnologies fd))
   \<and> videoUrl (websiteData fd v) = (case v of None \<Rightarrow> None | Some u \<Rightarrow> if u = [] then None else Some u)
   \<and> name (websiteData fd v) = form_name fd
   \<and> url (websiteData fd v) = form_url fd
   \<and> builtWith (websiteData fd v) = form_builtWith fd
   \<and> (\<not> falsy (VITE_FIREBASE_API_KEY env) \<and> \<not> falsy (VITE_FIREBASE_PROJECT_ID env)
        \<and> videoFile ui = None \<longrightarrow>
         filter isAddDoc (newCalls w (snd (handleSubmit env ui w))) =
           [AddDoc (websiteWithMetadata (websiteData (formData ui) None) (now env))]
         \<and> videoUrl (websiteData (formData ui) None) = None)
   \<and> (\<not> falsy (VITE_FIREBASE_API_KEY env) \<and> \<not> falsy (VITE_FIREBASE_PROJECT_ID env)
        \<and> videoFile ui = Some f \<and> uploadBytes_error env = None \<longrightarrow>
         filter isAddDoc (newCalls w (snd (handleSubmit env ui w))) =
           [AddDoc (websiteWithMetadata (websiteData (formData ui)
              (Some (publicUrl (js ''cdn.gridrr.com'') (randomUUID env) (cleanFileName (file_name f)))))
              (now env))]
         \<and> videoUrl (websiteData (formData ui)
              (Some (publicUrl (js ''cdn.gridrr.com'') (randomUUID env) (cleanFileName (file_name f))))) =
             Some (publicUrl (js ''cdn.gridrr.com'') (randomUUID env) (cleanFileName (file_name f))))"
proof -
  have cats: "categories (websiteData fd v) =
      filter (\<lambda>cat. cat \<noteq> []) (map trim (split 0x2C (form_categories fd)))"
    by (simp add: websiteData_def)
  have each: "cat \<noteq> [] \<and> 0x2C \<notin> set cat \<and> \<not> isWhiteSpace (hd cat) \<and> \<not> isWhiteSpace (last cat)"
    if "cat \<in> set (categories (websiteData fd v))" for cat
  proof -
    from that cats obtain seg where seg: "seg \<in> set (split 0x2C (form_categories fd))"
      and cat: "cat = trim seg" and ne: "cat \<noteq> []"
      by auto
    from seg have "0x2C \<notin> set seg"
      by (rule split_no_sep)
    with set_trim [of seg] cat have "0x2C \<notin> set cat"
      by auto
    with ne trim_ends [of seg] cat show ?thesis
      by simp
  qed
  have ex: "form_categories fd = js ''portfolio, , blog ,'' \<longrightarrow>
         categories (websiteData fd v) = [js ''portfolio'', js ''blog'']"
    using categories_example by (simp add: websiteData_def)
  have fields: "twitter (socialLinks (websiteData fd v)) =
       (if form_twitter fd = [] then None else Some (js ''https://twitter.com/'' @ form_twitter fd))
   \<and> instagram (socialLinks (websiteData fd v)) =
       (if form_instagram fd = [] then None else Some (js ''https://instagram.com/'' @ form_instagram fd))
   \<and> otherTechnologies (websiteData fd v) =
       (if form_otherTechnologies fd = [] then None else Some (form_otherTechnologies fd))
   \<and> videoUrl (websiteData fd v) = (case v of None \<Rightarrow> None | Some u \<Rightarrow> if u = [] then None else Some u)
   \<and> name (websiteData fd v) = form_name fd
   \<and> url (websiteData fd v) = form_url fd
   \<and> builtWith (websiteData fd v) = form_builtWith fd"
    by (simp add: websiteData_def split: option.splits)
  have v0: "videoUrl (websiteData (formData ui) None) = None"
    by (simp add: websiteData_def)
  have v1: "videoUrl (websiteData (formData ui)
              (Some (publicUrl (js ''cdn.gridrr.com'') (randomUUID env) (cleanFileName (file_name f))))) =
             Some (publicUrl (js ''cdn.gridrr.com'') (randomUUID env) (cleanFileName (file_name f)))"
    by (simp add: websiteData_def publicUrl_not_empty)
  from cats each ex fields v0 v1 handleSubmit_no_video [of env ui w]
    handleSubmit_with_video [of env ui f w]
  show ?thesis
    by blast
qed


theorem websiteData_assembled_witness:
  "categories (websiteData form0 None) = [js ''a'', js ''b'']
   \<and> twitter (socialLinks (websiteData form0 None)) = Some (js ''https://twitter.com/al'')
   \<and> instagram (socialLinks (websiteData form0 None)) = None
   \<and> otherTechnologies (websiteData form0 None) = None
   \<and> videoFile ui0 = None
   \<and> filter isAddDoc (newCalls world0 (snd (handleSubmit env_ok ui0 world0))) = [AddDoc (sampleDoc 7)]
   \<and> videoUrl (sampleDoc 7) = None"
proof -
  note inst = websiteData_assembled [of form0 None env_ok ui0 world0 file0]
  have cfg: "\<not> falsy (VITE_FIREBASE_API_KEY env_ok) \<and> \<not> falsy (VITE_FIREBASE_PROJECT_ID env_ok)"
    by (simp add: env_ok_def falsy_def js_def)
  have nv: "videoFile ui0 = None" and fd: "formData ui0 = form0"
    by (simp_all add: ui0_def)
  have nw: "now env_ok = 7"
    by (simp add: env_ok_def)
  have raw: "filter (\<lambda>cat. cat \<noteq> []) (map trim (split 0x2C (form_categories form0))) = [js ''a'', js ''b'']"
    by (simp add: form0_def js_def trim_def isWhiteSpace_def)
  have tw: "form_twitter form0 = js ''al''" and ig: "form_instagram form0 = []"
    and ot: "form_otherTechnologies form0 = []"
    by (simp_all add: form0_def)
  note r1 = inst [THEN conjunct2]
  note r3 = r1 [THEN conjunct2, THEN conjunct2]
  note r4 = r3 [THEN conjunct2]
  note r5 = r4 [THEN conjunct2]
  note r10 = r5 [THEN conjunct2, THEN conjunct2, THEN conjunct2, THEN conjunct2, THEN conjunct2]
  from inst [THEN conjunct1] raw have a: "categories (websiteData form0 None) = [js ''a'', js ''b'']"
    by (simp only:)
  from r3 [THEN conjunct1] tw have b: "twitter (socialLinks (websiteData form0 None)) = Some (js ''https://twitter.com/al'')"
    by (simp add: js_def)
  from r4 [THEN conjunct1] ig have c: "instagram (socialLinks (websiteData form0 None)) = None"
    by simp
  from r5 [THEN conjunct1] ot have d: "otherTechnologies (websiteData form0 None) = None"
    by simp
  from r10 [THEN conjunct1] cfg nv have e: "filter isAddDoc (newCalls world0 (snd (handleSubmit env_ok ui0 world0))) =
      [AddDoc (websiteWithMetadata (websiteData (formData ui0) None) (now env_ok))]"
    by blast
  from r10 [THEN conjunct1] cfg nv have "videoUrl (websiteData (formData ui0) None) = None"
    by blast
  then have f: "videoUrl (sampleDoc 7) = None"
    by (simp add: sampleDoc_def websiteWithMetadata_def fd)
  from e have e': "filter isAddDoc (newCalls world0 (snd (handleSubmit env_ok ui0 world0))) = [AddDoc (sampleDoc 7)]"
    by (simp only: sampleDoc_def fd nw)
  from a b c d nv e' f show ?thesis
    by blast
qed

end
